theory Spec2Isabelle
  imports
    Complex_Main
    "HOL-Library.Char_ord"
    "HOL-Library.List_Lexorder"
    "HOL-Library.AList"
begin

section \<open>Data model\<close>

text \<open>
  One row of the sales table. A categorical cell may be missing (pandas NaN), which is
  \<open>None\<close>; \<open>pd.crosstab\<close> and \<open>groupby\<close> both drop such rows. The identifier, the
  amount and the closing date are present in every row, so counting \<open>deal_id\<close> in a
  group counts its rows. \<open>is_won\<close> is the 0/1 column the loader derives from
  \<open>outcome\<close>. A timestamp is its number of nanoseconds, an integer that fits the 64 bits
  pandas stores it in.
\<close>

record deal =
  deal_id :: string
  sales_rep_id :: "string option"
  region :: "string option"
  industry :: "string option"
  product_type :: "string option"
  lead_source :: "string option"
  deal_stage :: "string option"
  deal_amount :: real
  closed_date :: int
  is_won :: bool

text \<open>The column names held in \<open>self.factors\<close>, in the order of that list.\<close>

datatype factor = Region | Industry | Product_type | Lead_source | Deal_stage | Sales_rep_id

definition factors :: "factor list" where
  "factors = [Region, Industry, Product_type, Lead_source, Deal_stage, Sales_rep_id]"

fun column :: "factor \<Rightarrow> deal \<Rightarrow> string option" where
  "column Region d = region d"
| "column Industry d = industry d"
| "column Product_type d = product_type d"
| "column Lead_source d = lead_source d"
| "column Deal_stage d = deal_stage d"
| "column Sales_rep_id d = sales_rep_id d"

datatype py_error = ValueError | TypeError | OutOfBounds

definition MIN_DEALS_FOR_INSIGHT :: nat where
  "MIN_DEALS_FOR_INSIGHT = 100"

section \<open>Double precision\<close>

text \<open>
  A Python or numpy float is an IEEE double: a real with a 53-bit significand. Every
  arithmetic operation returns the exact result rounded to the nearest double, ties to
  the even significand. The numbers of this program stay far from the largest and the
  smallest double, so the exponent is not bounded here. \<open>bit_length\<close> is Python's
  \<open>int.bit_length\<close>; \<open>exponent x\<close> is the \<open>e\<close> with \<open>2^e \<le> |x| < 2^(e+1)\<close>.
\<close>

fun bit_length :: "nat \<Rightarrow> nat" where
  "bit_length n = (if n = 0 then 0 else Suc (bit_length (n div 2)))"

declare bit_length.simps [simp del]

definition pow2 :: "int \<Rightarrow> real" where
  "pow2 e = (if 0 \<le> e then 2 ^ nat e else 1 / 2 ^ nat (- e))"

definition exponent :: "real \<Rightarrow> int" where
  "exponent x =
     (if 1 \<le> \<bar>x\<bar> then int (bit_length (nat \<lfloor>\<bar>x\<bar>\<rfloor>)) - 1
      else - int (bit_length (nat (\<lceil>1 / \<bar>x\<bar>\<rceil> - 1))))"

definition round_ties_even :: "real \<Rightarrow> int" where
  "round_ties_even q =
     (let f = \<lfloor>q\<rfloor>; r = q - of_int f
      in if r < 1 / 2 then f else if r > 1 / 2 then f + 1
         else if even f then f else f + 1)"

definition round_double :: "real \<Rightarrow> real" where
  "round_double x =
     (if x = 0 then 0
      else let u = pow2 (exponent x - 52) in of_int (round_ties_even (x / u)) * u)"

section \<open>The contingency table\<close>

text \<open>
  \<open>pd.crosstab(df[factor], df['is_won'])\<close>: one row per value of the factor that occurs,
  one column per value of \<open>is_won\<close> that occurs among the rows with a factor value, both
  sorted; a cell counts the deals with that pair.
\<close>

definition index_values :: "factor \<Rightarrow> deal list \<Rightarrow> string list" where
  "index_values f df = sort (remdups (List.map_filter (column f) df))"

definition outcome_values :: "factor \<Rightarrow> deal list \<Rightarrow> bool list" where
  "outcome_values f df = sort (remdups (map is_won (filter (\<lambda>d. column f d \<noteq> None) df)))"

definition cell :: "factor \<Rightarrow> deal list \<Rightarrow> string \<Rightarrow> bool \<Rightarrow> nat" where
  "cell f df c w = length (filter (\<lambda>d. column f d = Some c \<and> is_won d = w) df)"

definition crosstab :: "factor \<Rightarrow> deal list \<Rightarrow> nat list list" where
  "crosstab f df = map (\<lambda>c. map (cell f df c) (outcome_values f df)) (index_values f df)"

text \<open>\<open>contingency.values.sum()\<close> and \<open>contingency.shape\<close>.\<close>

definition table_sum :: "nat list list \<Rightarrow> nat" where
  "table_sum t = sum_list (map sum_list t)"

definition nrows :: "'a list list \<Rightarrow> nat" where
  "nrows t = length t"

definition ncols :: "'a list list \<Rightarrow> nat" where
  "ncols t = (case t of [] \<Rightarrow> 0 | r # _ \<Rightarrow> length r)"

section \<open>The chi-square test of the statistics library\<close>

text \<open>
  \<open>scipy.stats.chi2_contingency(observed)\<close> with its default arguments
  (\<open>correction=True\<close>, \<open>lambda_=None\<close>) on a two-dimensional table of counts (the
  library's check for negative entries cannot fail on them). It raises \<open>ValueError\<close> on
  an empty table and on an expected frequency of zero; with no degrees of freedom it
  returns the statistic 0 and the p-value 1; with one degree of freedom it applies Yates'
  correction before it computes the statistic. The survival function of the chi-square
  distribution, \<open>chi2.sf\<close>, is a parameter \<open>sf\<close>. The arithmetic inside the library is
  taken over the exact reals: the rounding of its sums and of the square root is not
  modelled, so the statistic and Cramer's V below are the exact values of the formulas.
\<close>

definition row_sums :: "nat list list \<Rightarrow> nat list" where
  "row_sums t = map sum_list t"

definition col_sums :: "nat list list \<Rightarrow> nat list" where
  "col_sums t = map (\<lambda>j. sum_list (map (\<lambda>r. r ! j) t)) [0..<ncols t]"

definition expected_freq :: "nat list list \<Rightarrow> real list list" where
  "expected_freq t =
     map (\<lambda>r. map (\<lambda>c. real r * real c / real (table_sum t)) (col_sums t)) (row_sums t)"

text \<open>Yates' correction: every observed count moves towards its expected value, by at
  most one half and never past it.\<close>

definition yates :: "real \<Rightarrow> real \<Rightarrow> real" where
  "yates obs ex = (let diff = ex - obs in obs + min (1 / 2) \<bar>diff\<bar> * sgn diff)"

text \<open>\<open>power_divergence\<close> with Pearson's statistic over the flattened table; it raises
  when the two tables do not have the same total (relative tolerance \<open>1e-8\<close>).\<close>

definition power_divergence :: "real list \<Rightarrow> real list \<Rightarrow> py_error + real" where
  "power_divergence f_obs f_exp =
     (let f_obs_sum = sum_list f_obs;
          f_exp_sum = sum_list f_exp;
          relative_diff = \<bar>f_obs_sum - f_exp_sum\<bar> / min f_obs_sum f_exp_sum
      in if relative_diff > 1 / 10 ^ 8 then Inl ValueError
         else Inr (sum_list (map2 (\<lambda>obs ex. (obs - ex)\<^sup>2 / ex) f_obs f_exp)))"

definition chi2_contingency ::
  "(real \<Rightarrow> int \<Rightarrow> real) \<Rightarrow> nat list list \<Rightarrow> py_error + (real \<times> real \<times> int \<times> real list list)" where
  "chi2_contingency sf observed =
     (if nrows observed * ncols observed = 0 then Inl ValueError
      else let expected = expected_freq observed in
        if \<exists>e \<in> set (concat expected). e = 0 then Inl ValueError
        else let dof = int (nrows observed * ncols observed)
                        - (int (nrows observed) + int (ncols observed)) + 2 - 1 in
          if dof = 0 then Inr (0, 1, dof, expected)
          else let obs = map real (concat observed);
                   obs' = (if dof = 1 then map2 yates obs (concat expected) else obs)
               in case power_divergence obs' (concat expected) of
                    Inl e \<Rightarrow> Inl e
                  | Inr chi2 \<Rightarrow> Inr (chi2, sf chi2 dof, dof, expected))"

section \<open>The driver analyzer\<close>

record category_stat =
  category :: string
  deal_count :: nat
  win_rate :: real
  total_revenue :: real
  win_rate_diff :: real

datatype effect = Large | Medium | Small

record factor_result =
  factor_name :: factor
  chi_square :: real
  p_value :: real
  degrees_of_freedom :: int
  cramers_v :: real
  significant :: bool
  effect_size :: effect
  category_stats :: "category_stat list"
  best_category :: string
  worst_category :: string
  best_win_rate :: real
  worst_win_rate :: real
  spread :: real

text \<open>The analyzer object: the dataset, the overall win rate in percent, the results
  dictionary in insertion order, and the ranking once it has been computed.\<close>

record analyzer =
  df :: "deal list"
  overall_win_rate :: real
  total_deals :: nat
  results :: "(factor \<times> factor_result) list"
  factor_ranking :: "factor list option"

text \<open>\<open>df['is_won'].mean()\<close>: the 0/1 column is summed in doubles, which is exact for
  fewer than \<open>2^53\<close> rows, and the sum is divided by the number of rows. On an empty
  selection pandas gives NaN; every use below is on a selection that is not empty.\<close>

definition mean_won :: "deal list \<Rightarrow> real" where
  "mean_won ds = round_double (real (length (filter is_won ds)) / real (length ds))"

definition init :: "deal list \<Rightarrow> analyzer" where
  "init ds = \<lparr>df = ds, overall_win_rate = round_double (mean_won ds * 100),
              total_deals = length ds, results = [], factor_ranking = None\<rparr>"

text \<open>\<open>groupby(factor).agg(...)\<close> with the two derived columns, \<open>win_rate * 100\<close> and
  \<open>win_rate - overall_win_rate\<close>, each one operation on doubles. The revenue is the sum
  of the amounts, without its rounding.\<close>

definition category_row :: "factor \<Rightarrow> deal list \<Rightarrow> real \<Rightarrow> string \<Rightarrow> category_stat" where
  "category_row f ds overall c =
     (let g = filter (\<lambda>d. column f d = Some c) ds
      in \<lparr>category = c, deal_count = length g,
          win_rate = round_double (mean_won g * 100),
          total_revenue = sum_list (map deal_amount g),
          win_rate_diff = round_double (round_double (mean_won g * 100) - overall)\<rparr>)"

definition group_stats :: "factor \<Rightarrow> deal list \<Rightarrow> real \<Rightarrow> category_stat list" where
  "group_stats f ds overall = map (category_row f ds overall) (index_values f ds)"

text \<open>\<open>idxmax\<close> and \<open>idxmin\<close>: the first position of the extreme value; they raise on an
  empty column.\<close>

fun idxmax :: "real list \<Rightarrow> py_error + nat" where
  "idxmax [] = Inl ValueError"
| "idxmax (x # xs) =
     (case idxmax xs of Inl _ \<Rightarrow> Inr 0
      | Inr i \<Rightarrow> if x \<ge> xs ! i then Inr 0 else Inr (Suc i))"

fun idxmin :: "real list \<Rightarrow> py_error + nat" where
  "idxmin [] = Inl ValueError"
| "idxmin (x # xs) =
     (case idxmin xs of Inl _ \<Rightarrow> Inr 0
      | Inr i \<Rightarrow> if x \<le> xs ! i then Inr 0 else Inr (Suc i))"

definition analyze_factor_impact ::
  "(real \<Rightarrow> int \<Rightarrow> real) \<Rightarrow> analyzer \<Rightarrow> factor \<Rightarrow> py_error + factor_result option" where
  "analyze_factor_impact sf a f =
     (let contingency = crosstab f (df a) in
      if table_sum contingency < MIN_DEALS_FOR_INSIGHT then Inr None
      else
        (case chi2_contingency sf contingency of
           Inl e \<Rightarrow> Inl e
         | Inr (chi2, p, dof, expected) \<Rightarrow>
             (let factor_stats = group_stats f (df a) (overall_win_rate a);
                  n = table_sum contingency;
                  min_dim = int (min (nrows contingency) (ncols contingency)) - 1;
                  v = (if min_dim > 0 then sqrt (chi2 / (real n * real_of_int min_dim))
                       else 0);
                  rates = map win_rate factor_stats
              in (case idxmax rates of
                    Inl e \<Rightarrow> Inl e
                  | Inr imax \<Rightarrow>
                      (case idxmin rates of
                         Inl e \<Rightarrow> Inl e
                       | Inr imin \<Rightarrow>
                           Inr (Some \<lparr>factor_name = f, chi_square = chi2, p_value = p,
                              degrees_of_freedom = dof, cramers_v = v,
                              significant = (p < 5 / 100),
                              effect_size = (if v > 25 / 100 then Large
                                             else if v > 15 / 100 then Medium else Small),
                              category_stats = factor_stats,
                              best_category = category (factor_stats ! imax),
                              worst_category = category (factor_stats ! imin),
                              best_win_rate = rates ! imax,
                              worst_win_rate = rates ! imin,
                              spread = round_double (rates ! imax - rates ! imin)\<rparr>))))))"

text \<open>
  \<open>analyze_all_factors\<close>: the loop stores every result that is not \<open>None\<close> under its
  factor (a dictionary keeps the position of a key that is assigned again), then ranks
  the stored results. \<open>sorted(..., reverse=True)\<close> keeps equal keys in their original
  order.
\<close>

fun analyze_loop ::
  "(real \<Rightarrow> int \<Rightarrow> real) \<Rightarrow> analyzer \<Rightarrow> factor list \<Rightarrow> py_error + analyzer" where
  "analyze_loop sf a [] = Inr a"
| "analyze_loop sf a (f # fs) =
     (case analyze_factor_impact sf a f of
        Inl e \<Rightarrow> Inl e
      | Inr None \<Rightarrow> analyze_loop sf a fs
      | Inr (Some r) \<Rightarrow> analyze_loop sf (a\<lparr>results := AList.update f r (results a)\<rparr>) fs)"

definition sorted_reverse :: "('a \<Rightarrow> 'k::{linorder, uminus}) \<Rightarrow> 'a list \<Rightarrow> 'a list" where
  "sorted_reverse key xs = sort_key (\<lambda>x. - key x) xs"

definition analyze_all_factors ::
  "(real \<Rightarrow> int \<Rightarrow> real) \<Rightarrow> analyzer \<Rightarrow> py_error + analyzer" where
  "analyze_all_factors sf a =
     (case analyze_loop sf a factors of
        Inl e \<Rightarrow> Inl e
      | Inr a' \<Rightarrow>
          Inr (a'\<lparr>factor_ranking :=
                 Some (map fst (sorted_reverse (\<lambda>x. cramers_v (snd x)) (results a')))\<rparr>))"

subsection \<open>Improvement opportunities\<close>

datatype priority = High | Medium_priority

record opportunity =
  opp_factor :: factor
  opp_category :: string
  current_win_rate :: real
  vs_average :: real
  opp_deal_count :: nat
  potential_additional_wins :: int
  opp_priority :: priority
  recommendation :: string

text \<open>\<open>round(x, 1)\<close>: the double nearest to the exact value of \<open>x\<close> rounded to one
  decimal, ties to even; and \<open>int(x)\<close>, truncation towards zero.\<close>

definition py_round1 :: "real \<Rightarrow> real" where
  "py_round1 x = round_double (of_int (round_ties_even (x * 10)) / 10)"

definition py_int :: "real \<Rightarrow> int" where
  "py_int x = (if x \<ge> 0 then \<lfloor>x\<rfloor> else \<lceil>x\<rceil>)"

fun generate_recommendation :: "factor \<Rightarrow> string \<Rightarrow> string" where
  "generate_recommendation Region c =
     ''Analyze '' @ c @ '' sales process. Consider region-specific training, ''
     @ ''local competitive analysis, or resource reallocation.''"
| "generate_recommendation Industry c =
     ''Review '' @ c @ '' vertical strategy. May need industry-specific ''
     @ ''value propositions, case studies, or specialized sales support.''"
| "generate_recommendation Product_type c =
     ''Evaluate '' @ c @ '' pricing, positioning, and competitive landscape. ''
     @ ''Consider product training for sales team.''"
| "generate_recommendation Lead_source c =
     ''Assess quality of '' @ c @ '' leads with marketing. May need ''
     @ ''better lead qualification criteria or nurturing programs.''"
| "generate_recommendation Deal_stage c =
     ''Investigate objections causing drop-off at '' @ c @ '' stage. ''
     @ ''Review sales enablement materials and talk tracks.''"
| "generate_recommendation Sales_rep_id c =
     ''Investigate root cause for '' @ c @ '' underperformance.''"


definition make_opportunity :: "factor \<Rightarrow> category_stat \<Rightarrow> opportunity" where
  "make_opportunity f cs =
     (let diff = win_rate_diff cs in
      \<lparr>opp_factor = f, opp_category = category cs,
       current_win_rate = py_round1 (win_rate cs),
       vs_average = py_round1 diff,
       opp_deal_count = deal_count cs,
       potential_additional_wins =
         py_int (round_double (round_double (\<bar>diff\<bar> / 100) * real (deal_count cs))),
       opp_priority = (if diff < - 10 then High else Medium_priority),
       recommendation = generate_recommendation f (category cs)\<rparr>)"



subsection \<open>Rep performance tiers\<close>

record tiers =
  top_performers :: "(string \<times> real \<times> nat) list"
  solid_performers :: "(string \<times> real \<times> nat) list"
  needs_improvement :: "(string \<times> real \<times> nat) list"
  at_risk :: "(string \<times> real \<times> nat) list"

fun tier_loop :: "real \<Rightarrow> tiers \<Rightarrow> category_stat list \<Rightarrow> tiers" where
  "tier_loop overall t [] = t"
| "tier_loop overall t (stat # stats) =
     (let rep = category stat; rate = win_rate stat; count = deal_count stat in
      if count < 50 then tier_loop overall t stats
      else if rate \<ge> round_double (overall + 10)
        then tier_loop overall (t\<lparr>top_performers := top_performers t @ [(rep, rate, count)]\<rparr>) stats
      else if rate \<ge> overall
        then tier_loop overall (t\<lparr>solid_performers := solid_performers t @ [(rep, rate, count)]\<rparr>) stats
      else if rate \<ge> round_double (overall - 10)
        then tier_loop overall (t\<lparr>needs_improvement := needs_improvement t @ [(rep, rate, count)]\<rparr>) stats
      else tier_loop overall (t\<lparr>at_risk := at_risk t @ [(rep, rate, count)]\<rparr>) stats)"

text \<open>Subscripting the \<open>None\<close> that \<open>analyze_factor_impact\<close> returns below the gate raises
  \<open>TypeError\<close>.\<close>

definition get_rep_performance_tiers ::
  "(real \<Rightarrow> int \<Rightarrow> real) \<Rightarrow> analyzer \<Rightarrow> py_error + tiers" where
  "get_rep_performance_tiers sf a =
     (case analyze_factor_impact sf a Sales_rep_id of
        Inl e \<Rightarrow> Inl e
      | Inr None \<Rightarrow> Inl TypeError
      | Inr (Some result) \<Rightarrow>
          Inr (tier_loop (overall_win_rate a)
                 \<lparr>top_performers = [], solid_performers = [],
                  needs_improvement = [], at_risk = []\<rparr>
                 (category_stats result)))"

section \<open>Rep momentum index\<close>

text \<open>
  \<open>pd.Timedelta(days=n)\<close> in nanoseconds: it raises unless the value fits 64 bits (the
  least 64-bit integer stands for "not a time"). Subtracting it from a timestamp raises
  in the same way when the result is not a timestamp.
\<close>

definition Timedelta_days :: "int \<Rightarrow> py_error + int" where
  "Timedelta_days n =
     (let v = n * 86400000000000
      in if - (2 ^ 63) < v \<and> v < 2 ^ 63 then Inr v else Inl OutOfBounds)"

definition timestamp_sub :: "int \<Rightarrow> int \<Rightarrow> py_error + int" where
  "timestamp_sub t v =
     (let r = t - v
      in if - (2 ^ 63) < r \<and> r < 2 ^ 63 then Inr r else Inl OutOfBounds)"

text \<open>The rows of one rep, their latest closing date, the cutoff
  \<open>max_date - pd.Timedelta(days=n)\<close> and the rows that closed at or after a cutoff: the
  locals \<open>rep_data\<close>, \<open>max_date\<close>, \<open>recent_cutoff\<close>, \<open>historical_cutoff\<close>,
  \<open>recent_deals\<close> and \<open>historical_deals\<close> of the function.\<close>

definition rep_data :: "deal list \<Rightarrow> string \<Rightarrow> deal list" where
  "rep_data ds rep_id = filter (\<lambda>d. sales_rep_id d = Some rep_id) ds"

definition max_date :: "deal list \<Rightarrow> int" where
  "max_date rd = Max (set (map closed_date rd))"

definition window_cutoff :: "deal list \<Rightarrow> int \<Rightarrow> py_error + int" where
  "window_cutoff rd days =
     (case Timedelta_days days of
        Inl e \<Rightarrow> Inl e
      | Inr v \<Rightarrow> timestamp_sub (max_date rd) v)"

definition deals_since :: "deal list \<Rightarrow> int \<Rightarrow> deal list" where
  "deals_since rd cutoff = filter (\<lambda>d. closed_date d \<ge> cutoff) rd"

text \<open>The result \<open>Inr None\<close> is the NaN the function returns.\<close>

definition calculate_rep_momentum_index ::
  "deal list \<Rightarrow> string \<Rightarrow> int \<Rightarrow> int \<Rightarrow> py_error + real option" where
  "calculate_rep_momentum_index ds rep_id recent_days historical_days =
     (let rd = rep_data ds rep_id in
      if length rd = 0 then Inr None
      else
        (case window_cutoff rd recent_days of
           Inl e \<Rightarrow> Inl e
         | Inr recent_cutoff \<Rightarrow>
             (case window_cutoff rd historical_days of
                Inl e \<Rightarrow> Inl e
              | Inr historical_cutoff \<Rightarrow>
                  (let recent_deals = deals_since rd recent_cutoff;
                       historical_deals = deals_since rd historical_cutoff
                   in if length recent_deals < 3 \<or> length historical_deals < 5 then Inr None
                      else
                        (let recent_win_rate = mean_won recent_deals;
                             historical_win_rate = mean_won historical_deals
                         in if historical_win_rate = 0 then Inr None
                            else Inr (Some (round_double
                                   (recent_win_rate / historical_win_rate))))))))"

section \<open>The textbook statistic\<close>

text \<open>
  Pearson's statistic: the sum over all cells of (observed - expected) squared over
  expected; the same sum after Yates' correction of the observed counts; and the degrees
  of freedom (rows - 1)(columns - 1).
\<close>

definition pearson_statistic :: "nat list list \<Rightarrow> real" where
  "pearson_statistic t =
     sum_list (map2 (\<lambda>obs ex. (obs - ex)\<^sup>2 / ex)
                 (map real (concat t)) (concat (expected_freq t)))"

definition yates_statistic :: "nat list list \<Rightarrow> real" where
  "yates_statistic t =
     sum_list (map2 (\<lambda>obs ex. (obs - ex)\<^sup>2 / ex)
                 (map2 yates (map real (concat t)) (concat (expected_freq t)))
                 (concat (expected_freq t)))"

definition table_dof :: "nat list list \<Rightarrow> int" where
  "table_dof t = (int (nrows t) - 1) * (int (ncols t) - 1)"

text \<open>What the library returns as the statistic of a table none of whose expected
  frequencies is zero.\<close>

definition contingency_statistic :: "nat list list \<Rightarrow> real" where
  "contingency_statistic t =
     (if table_dof t = 0 then 0
      else if table_dof t = 1 then yates_statistic t
      else pearson_statistic t)"

section \<open>Notions the properties are stated with\<close>

text \<open>The results a first run of the loop stores: for every factor of the list, in
  order, its result if \<open>analyze_factor_impact\<close> returns one.\<close>

definition fresh_results ::
  "(real \<Rightarrow> int \<Rightarrow> real) \<Rightarrow> analyzer \<Rightarrow> factor list \<Rightarrow> (factor \<times> factor_result) list" where
  "fresh_results sf a fs =
     concat (map (\<lambda>f. case analyze_factor_impact sf a f of
                         Inr (Some r) \<Rightarrow> [(f, r)]
                       | _ \<Rightarrow> []) fs)"

text \<open>The deals of one category of a factor, the win rate of a list of deals in percent
  and the deviation of a category's win rate from the win rate of the whole dataset, in
  percentage points: the doubles \<open>mean() * 100\<close> and their difference.\<close>

definition category_deals :: "factor \<Rightarrow> deal list \<Rightarrow> string \<Rightarrow> deal list" where
  "category_deals f ds c = filter (\<lambda>d. column f d = Some c) ds"

definition win_rate_percent :: "deal list \<Rightarrow> real" where
  "win_rate_percent ds = round_double (mean_won ds * 100)"


text \<open>The deals of a rep in the window of a number of days before the rep's latest
  closing date, and the windows for which pandas can represent the cutoff.\<close>

definition window_deals :: "deal list \<Rightarrow> int \<Rightarrow> deal list" where
  "window_deals rd days = deals_since rd (max_date rd - days * 86400000000000)"

definition window_in_range :: "deal list \<Rightarrow> int \<Rightarrow> bool" where
  "window_in_range rd days \<longleftrightarrow>
     \<bar>days\<bar> \<le> 106751
     \<and> - (2 ^ 63) < max_date rd - days * 86400000000000
     \<and> max_date rd - days * 86400000000000 < 2 ^ 63"

section \<open>Example datasets\<close>

definition example_deal :: "string \<Rightarrow> int \<Rightarrow> bool \<Rightarrow> deal" where
  "example_deal rep day won =
     \<lparr>deal_id = ''D'', sales_rep_id = Some rep, region = Some ''East'',
      industry = Some ''Tech'', product_type = Some ''Core'', lead_source = Some ''Web'',
      deal_stage = Some ''Closed'', deal_amount = 1000,
      closed_date = day * 86400000000000, is_won = won\<rparr>"

text \<open>Seven deals of \<open>rep_1\<close> over a hundred days, and one later deal of another rep.\<close>

definition momentum_example :: "deal list" where
  "momentum_example =
     [example_deal ''rep_1'' 10 False, example_deal ''rep_2'' 400 True,
      example_deal ''rep_1'' 20 False,
      example_deal ''rep_1'' 70 True, example_deal ''rep_1'' 80 True,
      example_deal ''rep_1'' 85 False, example_deal ''rep_1'' 90 True,
      example_deal ''rep_1'' 100 True]"

text \<open>A stand-in for the survival function in closed examples; no result below
  depends on it.\<close>

definition example_sf :: "real \<Rightarrow> int \<Rightarrow> real" where
  "example_sf x k = 0"

text \<open>Deals of one segment: the label is the region and the rep.\<close>

definition segment_deal :: "string \<Rightarrow> bool \<Rightarrow> deal" where
  "segment_deal seg won =
     \<lparr>deal_id = ''D'', sales_rep_id = Some seg, region = Some seg,
      industry = Some ''Tech'', product_type = Some ''Core'', lead_source = Some ''Web'',
      deal_stage = Some ''Closed'', deal_amount = 1000, closed_date = 0, is_won = won\<rparr>"

definition segment :: "string \<Rightarrow> nat \<Rightarrow> nat \<Rightarrow> deal list" where
  "segment seg n_won n_lost =
     replicate n_won (segment_deal seg True) @ replicate n_lost (segment_deal seg False)"

text \<open>Two regions of fifty deals each: 30 won and 20 lost, 20 won and 30 lost.\<close>

definition two_region_example :: "deal list" where
  "two_region_example = segment ''A'' 30 20 @ segment ''B'' 20 30"

text \<open>One region only: 60 won and 40 lost deals.\<close>

definition one_region_example :: "deal list" where
  "one_region_example = segment ''A'' 60 40"

text \<open>Two reps: 45 won and 15 lost deals, 10 won and 30 lost deals.\<close>

definition rep_example :: "deal list" where
  "rep_example = segment ''rep_1'' 45 15 @ segment ''rep_2'' 10 30"

text \<open>Two regions of 150 deals each: 105 won in East, 30 won in West.\<close>

definition opportunity_example :: "deal list" where
  "opportunity_example = segment ''East'' 105 45 @ segment ''West'' 30 120"

text \<open>Two reps of 50 deals each, 2 won and 12 won: the first is exactly 10 percentage
  points below the overall win rate of 14 percent.\<close>

definition tier_boundary_example :: "deal list" where
  "tier_boundary_example = segment ''rep_1'' 2 48 @ segment ''rep_2'' 12 38"

text \<open>Two regions of 102 and 118 deals, 51 and 70 won: the first is exactly 5 percentage
  points below the overall win rate of 55 percent.\<close>

definition opportunity_boundary_example :: "deal list" where
  "opportunity_boundary_example = segment ''North'' 51 51 @ segment ''South'' 70 48"

section \<open>Properties of the contingency table\<close>

lemma sum_list_indicator:
  assumes "distinct ks" and "\<And>k k'. Q k \<Longrightarrow> Q k' \<Longrightarrow> k = k'"
  shows "(\<Sum>k\<leftarrow>ks. if Q k then (1::nat) else 0) = (if \<exists>k \<in> set ks. Q k then 1 else 0)"
  using assms by (induction ks) auto

lemma sum_list_length_filter:
  assumes "distinct ks" and uniq: "\<And>x k k'. Q x k \<Longrightarrow> Q x k' \<Longrightarrow> k = k'"
  shows "(\<Sum>k\<leftarrow>ks. length (filter (\<lambda>x. Q x k) xs))
       = length (filter (\<lambda>x. \<exists>k \<in> set ks. Q x k) xs)"
proof (induction xs)
  case Nil
  show ?case by simp
next
  case (Cons x xs)
  have "(\<Sum>k\<leftarrow>ks. length (filter (\<lambda>x. Q x k) (x # xs)))
      = (\<Sum>k\<leftarrow>ks. length (filter (\<lambda>x. Q x k) xs) + (if Q x k then 1 else 0))"
    by (intro arg_cong [where f = sum_list] map_cong) auto
  also have "\<dots> = (\<Sum>k\<leftarrow>ks. length (filter (\<lambda>x. Q x k) xs))
                 + (\<Sum>k\<leftarrow>ks. if Q x k then 1 else 0)"
    by (simp add: sum_list_addf)
  also have "(\<Sum>k\<leftarrow>ks. if Q x k then (1::nat) else 0)
           = (if \<exists>k \<in> set ks. Q x k then 1 else 0)"
    by (rule sum_list_indicator [OF assms(1)]) (rule uniq)
  finally show ?case using Cons.IH by simp
qed

lemma set_index_values:
  "set (index_values f ds) = {c. \<exists>d \<in> set ds. column f d = Some c}"
  by (force simp: index_values_def List.map_filter_def image_iff)

lemma distinct_index_values: "distinct (index_values f ds)"
  by (simp add: index_values_def)

lemma sorted_index_values: "sorted (index_values f ds)"
  by (simp add: index_values_def)

lemma set_outcome_values:
  "set (outcome_values f ds) = is_won ` {d \<in> set ds. column f d \<noteq> None}"
  by (auto simp: outcome_values_def)

lemma distinct_outcome_values: "distinct (outcome_values f ds)"
  by (simp add: outcome_values_def)

lemma sorted_outcome_values: "sorted (outcome_values f ds)"
  by (simp add: outcome_values_def)

lemma sorted_distinct_bool_cases:
  assumes "sorted (bs :: bool list)" "distinct bs"
  shows "bs = [] \<or> bs = [False] \<or> bs = [True] \<or> bs = [False, True]"
proof (cases bs)
  case Nil then show ?thesis by simp
next
  case (Cons a as)
  show ?thesis
  proof (cases as)
    case Nil with Cons show ?thesis by (cases a) auto
  next
    case (Cons b cs)
    show ?thesis
    proof (cases cs)
      case Nil
      with Cons \<open>bs = a # as\<close> assms show ?thesis by (cases a; cases b) auto
    next
      case (Cons c ds)
      with \<open>as = b # cs\<close> \<open>bs = a # as\<close> assms show ?thesis
        by (cases a; cases b; cases c) auto
    qed
  qed
qed

lemma outcome_values_cases:
  "outcome_values f ds = [] \<or> outcome_values f ds = [False]
   \<or> outcome_values f ds = [True] \<or> outcome_values f ds = [False, True]"
  by (rule sorted_distinct_bool_cases [OF sorted_outcome_values distinct_outcome_values])

lemma row_sum_crosstab:
  "sum_list (map (cell f ds c) (outcome_values f ds))
     = length (filter (\<lambda>d. column f d = Some c) ds)"
proof -
  have "sum_list (map (cell f ds c) (outcome_values f ds))
      = (\<Sum>w\<leftarrow>outcome_values f ds. length (filter (\<lambda>d. column f d = Some c \<and> is_won d = w) ds))"
    by (intro arg_cong [where f = sum_list] map_cong) (simp_all add: cell_def)
  also have "\<dots> = length (filter (\<lambda>d. \<exists>w \<in> set (outcome_values f ds). column f d = Some c \<and> is_won d = w) ds)"
    by (rule sum_list_length_filter [OF distinct_outcome_values]) simp
  also have "\<dots> = length (filter (\<lambda>d. column f d = Some c) ds)"
    by (intro arg_cong [where f = length] filter_cong) (auto simp: set_outcome_values)
  finally show ?thesis .
qed

lemma row_sums_crosstab:
  "row_sums (crosstab f ds)
     = map (\<lambda>c. length (filter (\<lambda>d. column f d = Some c) ds)) (index_values f ds)"
  by (simp add: row_sums_def crosstab_def row_sum_crosstab comp_def)

lemma table_sum_crosstab:
  "table_sum (crosstab f ds) = length (filter (\<lambda>d. column f d \<noteq> None) ds)"
proof -
  have "table_sum (crosstab f ds)
      = (\<Sum>c\<leftarrow>index_values f ds. length (filter (\<lambda>d. column f d = Some c) ds))"
    using row_sums_crosstab [of f ds] by (simp add: table_sum_def row_sums_def)
  also have "\<dots> = length (filter (\<lambda>d. \<exists>c \<in> set (index_values f ds). column f d = Some c) ds)"
    by (rule sum_list_length_filter [OF distinct_index_values]) simp
  also have "\<dots> = length (filter (\<lambda>d. column f d \<noteq> None) ds)"
    by (intro arg_cong [where f = length] filter_cong) (auto simp: set_index_values)
  finally show ?thesis .
qed

lemma nrows_crosstab: "nrows (crosstab f ds) = length (index_values f ds)"
  by (simp add: nrows_def crosstab_def)

lemma ncols_crosstab:
  "index_values f ds \<noteq> [] \<Longrightarrow> ncols (crosstab f ds) = length (outcome_values f ds)"
  by (cases "index_values f ds") (simp_all add: ncols_def crosstab_def)

lemma col_sums_crosstab:
  assumes "index_values f ds \<noteq> []"
  shows "col_sums (crosstab f ds)
       = map (\<lambda>w. length (filter (\<lambda>d. column f d \<noteq> None \<and> is_won d = w) ds))
           (outcome_values f ds)"
proof -
  have col: "sum_list (map (\<lambda>r. r ! j) (crosstab f ds))
      = length (filter (\<lambda>d. column f d \<noteq> None \<and> is_won d = outcome_values f ds ! j) ds)"
    if j: "j < length (outcome_values f ds)" for j
  proof -
    let ?w = "outcome_values f ds ! j"
    have "sum_list (map (\<lambda>r. r ! j) (crosstab f ds))
        = (\<Sum>c\<leftarrow>index_values f ds. length (filter (\<lambda>d. column f d = Some c \<and> is_won d = ?w) ds))"
      using j by (simp add: crosstab_def comp_def cell_def)
    also have "\<dots> = length (filter (\<lambda>d. \<exists>c \<in> set (index_values f ds).
                                   column f d = Some c \<and> is_won d = ?w) ds)"
      by (rule sum_list_length_filter [OF distinct_index_values]) simp
    also have "\<dots> = length (filter (\<lambda>d. column f d \<noteq> None \<and> is_won d = ?w) ds)"
      by (intro arg_cong [where f = length] filter_cong) (auto simp: set_index_values)
    finally show ?thesis .
  qed
  show ?thesis
    unfolding col_sums_def ncols_crosstab [OF assms]
    by (rule nth_equalityI) (simp_all add: col)
qed

lemma index_values_nonempty:
  "0 < table_sum (crosstab f ds) \<Longrightarrow> index_values f ds \<noteq> []"
  by (auto simp: table_sum_def crosstab_def)

lemma outcome_values_nonempty:
  "0 < table_sum (crosstab f ds) \<Longrightarrow> outcome_values f ds \<noteq> []"
  by (auto simp: table_sum_def crosstab_def comp_def)

section \<open>Yates' correction on a table of two rows and two columns\<close>

lemma yates_sum_2x2:
  fixes a b c d :: real
  assumes n: "0 < a + b + c + d"
  defines "n \<equiv> a + b + c + d"
  shows "yates a ((a + b) * (a + c) / n) + yates b ((a + b) * (b + d) / n)
       + yates c ((c + d) * (a + c) / n) + yates d ((c + d) * (b + d) / n)
       = a + b + c + d"
proof -
  define D where "D = (b * c - a * d) / n"
  have n0: "n \<noteq> 0" using n by (simp add: n_def)
  have e1: "(a + b) * (a + c) / n - a = D"
    using n0 unfolding D_def by (simp add: field_simps n_def)
  have e2: "(a + b) * (b + d) / n - b = - D"
    using n0 unfolding D_def by (simp add: field_simps n_def)
  have e3: "(c + d) * (a + c) / n - c = - D"
    using n0 unfolding D_def by (simp add: field_simps n_def)
  have e4: "(c + d) * (b + d) / n - d = D"
    using n0 unfolding D_def by (simp add: field_simps n_def)
  show ?thesis
    unfolding yates_def Let_def e1 e2 e3 e4 by (simp add: sgn_minus)
qed

section \<open>Expected frequencies of a contingency table\<close>

lemma category_count_pos:
  assumes "c \<in> set (index_values f ds)"
  shows "0 < length (filter (\<lambda>d. column f d = Some c) ds)"
proof -
  from assms obtain d where "d \<in> set ds" "column f d = Some c"
    by (auto simp: set_index_values)
  then have "d \<in> set (filter (\<lambda>d. column f d = Some c) ds)" by simp
  then show ?thesis by (rule length_pos_if_in_set)
qed

lemma outcome_count_pos:
  assumes "w \<in> set (outcome_values f ds)"
  shows "0 < length (filter (\<lambda>d. column f d \<noteq> None \<and> is_won d = w) ds)"
proof -
  from assms obtain d where "d \<in> set ds" "column f d \<noteq> None" "is_won d = w"
    by (auto simp: set_outcome_values)
  then have "d \<in> set (filter (\<lambda>d. column f d \<noteq> None \<and> is_won d = w) ds)" by simp
  then show ?thesis by (rule length_pos_if_in_set)
qed

lemma expected_freq_crosstab_pos:
  assumes n: "0 < table_sum (crosstab f ds)"
    and e: "e \<in> set (concat (expected_freq (crosstab f ds)))"
  shows "0 < e"
proof -
  from e obtain R C where R: "R \<in> set (row_sums (crosstab f ds))"
    and C: "C \<in> set (col_sums (crosstab f ds))"
    and e_eq: "e = real R * real C / real (table_sum (crosstab f ds))"
    by (auto simp: expected_freq_def)
  from R obtain c where "c \<in> set (index_values f ds)"
    and R_eq: "R = length (filter (\<lambda>d. column f d = Some c) ds)"
    by (auto simp: row_sums_crosstab)
  then have "0 < R"
    unfolding R_eq by (intro category_count_pos)
  moreover
  from C obtain w where "w \<in> set (outcome_values f ds)"
    and C_eq: "C = length (filter (\<lambda>d. column f d \<noteq> None \<and> is_won d = w) ds)"
    by (auto simp: col_sums_crosstab [OF index_values_nonempty [OF n]])
  then have "0 < C"
    unfolding C_eq by (intro outcome_count_pos)
  ultimately show ?thesis
    unfolding e_eq using n by simp
qed

lemma sum_list_expected_row:
  "(\<Sum>c\<leftarrow>cs. real r * real c / N) = real r * real (sum_list cs) / N"
  by (induction cs) (simp_all add: distrib_left add_divide_distrib)

lemma sum_list_expected_rows:
  "(\<Sum>r\<leftarrow>rs. real r * S / N) = real (sum_list rs) * S / N"
  by (induction rs) (simp_all add: distrib_right add_divide_distrib)

lemma sum_list_concat_map:
  fixes xss :: "real list list"
  shows "sum_list (concat xss) = sum_list (map sum_list xss)"
  by (induction xss) simp_all

lemma sum_list_expected_freq:
  "sum_list (concat (expected_freq t))
     = real (sum_list (row_sums t)) * real (sum_list (col_sums t)) / real (table_sum t)"
  by (simp add: expected_freq_def sum_list_concat_map comp_def sum_list_expected_row
      sum_list_expected_rows)

lemma sum_list_col_sums_crosstab:
  assumes "0 < table_sum (crosstab f ds)"
  shows "sum_list (col_sums (crosstab f ds)) = table_sum (crosstab f ds)"
proof -
  have "sum_list (col_sums (crosstab f ds))
      = (\<Sum>w\<leftarrow>outcome_values f ds.
           length (filter (\<lambda>d. column f d \<noteq> None \<and> is_won d = w) ds))"
    by (simp add: col_sums_crosstab [OF index_values_nonempty [OF assms]])
  also have "\<dots> = length (filter (\<lambda>d. \<exists>w \<in> set (outcome_values f ds).
                                 column f d \<noteq> None \<and> is_won d = w) ds)"
    by (rule sum_list_length_filter [OF distinct_outcome_values]) simp
  also have "\<dots> = length (filter (\<lambda>d. column f d \<noteq> None) ds)"
    by (intro arg_cong [where f = length] filter_cong) (auto simp: set_outcome_values)
  finally show ?thesis by (simp add: table_sum_crosstab)
qed

lemma sum_list_expected_crosstab:
  assumes "0 < table_sum (crosstab f ds)"
  shows "sum_list (concat (expected_freq (crosstab f ds))) = real (table_sum (crosstab f ds))"
proof -
  have "sum_list (row_sums (crosstab f ds)) = table_sum (crosstab f ds)"
    by (simp add: table_sum_def row_sums_def)
  then show ?thesis
    using assms by (simp add: sum_list_expected_freq sum_list_col_sums_crosstab)
qed

lemma sum_list_observed: "sum_list (map real (concat t)) = real (table_sum t)"
  by (induction t) (simp_all add: table_sum_def sum_list_of_nat)

lemma dof_eq:
  "int (r * c) - (int r + int c) + 2 - 1 = (int r - 1) * (int c - 1)"
  by (simp add: algebra_simps)

lemma yates_sum_table_2x2:
  fixes a b c d :: nat
  assumes "0 < a + b + c + d"
  shows "sum_list (map2 yates (map real (concat [[a, b], [c, d]]))
                              (concat (expected_freq [[a, b], [c, d]])))
       = real (a + b + c + d)"
proof -
  have upt2: "[0..<2] = [0, Suc 0]" by (simp add: upt_rec)
  have pos: "0 < real a + real b + real c + real d" using assms by linarith
  have "expected_freq [[a, b], [c, d]]
      = [[(real a + real b) * (real a + real c) / (real a + real b + real c + real d),
          (real a + real b) * (real b + real d) / (real a + real b + real c + real d)],
         [(real c + real d) * (real a + real c) / (real a + real b + real c + real d),
          (real c + real d) * (real b + real d) / (real a + real b + real c + real d)]]"
    by (simp add: expected_freq_def row_sums_def col_sums_def ncols_def table_sum_def upt2
        add.assoc)
  then show ?thesis
    using yates_sum_2x2 [OF pos] by simp
qed

section \<open>The library test on a contingency table\<close>

lemma length_outcome_values_le: "length (outcome_values f ds) \<le> 2"
  using outcome_values_cases [of f ds] by auto

lemma length_expected_rows:
  "map length (expected_freq t) = map (\<lambda>_. ncols t) t"
  by (simp add: expected_freq_def row_sums_def col_sums_def comp_def)

lemma dof_one_shape:
  assumes n: "0 < table_sum (crosstab f ds)" and dof: "table_dof (crosstab f ds) = 1"
  obtains c1 c2 where "index_values f ds = [c1, c2]" "outcome_values f ds = [False, True]"
proof -
  have ne: "index_values f ds \<noteq> []" by (rule index_values_nonempty [OF n])
  have prod: "(int (length (index_values f ds)) - 1) * (int (length (outcome_values f ds)) - 1) = 1"
    using dof by (simp add: table_dof_def nrows_crosstab ncols_crosstab [OF ne])
  from outcome_values_cases [of f ds] prod ne
  have outs: "outcome_values f ds = [False, True]" by auto
  with prod have "length (index_values f ds) = 2" by simp
  then obtain c1 c2 where "index_values f ds = [c1, c2]"
    by (cases "index_values f ds"; cases "tl (index_values f ds)") auto
  with outs that show thesis by blast
qed

lemma yates_sum_crosstab:
  assumes n: "0 < table_sum (crosstab f ds)" and dof: "table_dof (crosstab f ds) = 1"
  shows "sum_list (map2 yates (map real (concat (crosstab f ds)))
                              (concat (expected_freq (crosstab f ds))))
       = real (table_sum (crosstab f ds))"
proof -
  from dof_one_shape [OF n dof] obtain c1 c2
    where "index_values f ds = [c1, c2]" "outcome_values f ds = [False, True]" .
  then have t: "crosstab f ds = [[cell f ds c1 False, cell f ds c1 True],
                                 [cell f ds c2 False, cell f ds c2 True]]"
    by (simp add: crosstab_def)
  have s: "table_sum (crosstab f ds)
         = cell f ds c1 False + cell f ds c1 True + cell f ds c2 False + cell f ds c2 True"
    unfolding t by (simp add: table_sum_def)
  show ?thesis
    using n unfolding s unfolding t by (intro yates_sum_table_2x2)
qed

lemma power_divergence_equal_sums:
  assumes "sum_list f_obs = sum_list f_exp"
  shows "power_divergence f_obs f_exp
       = Inr (sum_list (map2 (\<lambda>obs ex. (obs - ex)\<^sup>2 / ex) f_obs f_exp))"
  using assms by (simp add: power_divergence_def Let_def)

lemma chi2_contingency_crosstab:
  assumes n: "0 < table_sum (crosstab f ds)"
  shows "chi2_contingency sf (crosstab f ds) =
     Inr (contingency_statistic (crosstab f ds),
          (if table_dof (crosstab f ds) = 0 then 1
           else sf (contingency_statistic (crosstab f ds)) (table_dof (crosstab f ds))),
          table_dof (crosstab f ds),
          expected_freq (crosstab f ds))"
proof -
  let ?t = "crosstab f ds"
  have ne: "index_values f ds \<noteq> []" by (rule index_values_nonempty [OF n])
  have size: "nrows ?t * ncols ?t \<noteq> 0"
    using ne outcome_values_nonempty [OF n]
    by (simp add: nrows_crosstab ncols_crosstab [OF ne])
  have nz: "\<not> (\<exists>e \<in> set (concat (expected_freq ?t)). e = 0)"
    using expected_freq_crosstab_pos [OF n] by fastforce
  have dof: "int (nrows ?t * ncols ?t) - (int (nrows ?t) + int (ncols ?t)) + 2 - 1
           = table_dof ?t"
    unfolding table_dof_def by (rule dof_eq)
  show ?thesis
  proof (cases "table_dof ?t = 0")
    case True
    then show ?thesis
      using size nz unfolding chi2_contingency_def Let_def dof
      by (simp add: contingency_statistic_def)
  next
    case nonzero: False
    show ?thesis
    proof (cases "table_dof ?t = 1")
      case True
      have "power_divergence (map2 yates (map real (concat ?t)) (concat (expected_freq ?t)))
              (concat (expected_freq ?t)) = Inr (yates_statistic ?t)"
        unfolding yates_statistic_def
        by (rule power_divergence_equal_sums)
           (simp add: yates_sum_crosstab [OF n True] sum_list_expected_crosstab [OF n])
      then show ?thesis
        using size nz True unfolding chi2_contingency_def Let_def dof
        by (simp add: contingency_statistic_def)
    next
      case False
      have "power_divergence (map real (concat ?t)) (concat (expected_freq ?t))
          = Inr (pearson_statistic ?t)"
        unfolding pearson_statistic_def
        by (rule power_divergence_equal_sums)
           (simp add: sum_list_observed sum_list_expected_crosstab [OF n])
      then show ?thesis
        using size nz nonzero False unfolding chi2_contingency_def Let_def dof
        by (simp add: contingency_statistic_def)
    qed
  qed
qed

lemma idxmax_nonempty: "xs \<noteq> [] \<Longrightarrow> \<exists>i. idxmax xs = Inr i"
  by (cases xs) (auto split: sum.splits)

lemma idxmin_nonempty: "xs \<noteq> [] \<Longrightarrow> \<exists>i. idxmin xs = Inr i"
  by (cases xs) (auto split: sum.splits)

lemma length_group_stats: "length (group_stats f ds ov) = length (index_values f ds)"
  by (simp add: group_stats_def)

section \<open>Tables without degrees of freedom\<close>

lemma map2_same: "map2 g xs xs = map (\<lambda>x. g x x) xs"
  by (induction xs) simp_all

lemma pearson_expected_eq_observed:
  assumes "concat (expected_freq t) = map real (concat t)"
  shows "pearson_statistic t = 0"
  unfolding pearson_statistic_def assms map2_same
  by (induction "concat t") (simp_all add: comp_def)

lemma expected_one_col:
  fixes g :: "'a \<Rightarrow> nat"
  assumes ne: "cats \<noteq> []" and pos: "0 < sum_list (map g cats)"
  shows "concat (expected_freq (map (\<lambda>c. [g c]) cats))
       = map real (concat (map (\<lambda>c. [g c]) cats))"
proof -
  let ?t = "map (\<lambda>c. [g c]) cats"
  have nc: "ncols ?t = 1" using ne by (cases cats) (simp_all add: ncols_def)
  have cs: "col_sums ?t = [sum_list (map g cats)]"
    unfolding col_sums_def nc by (simp add: comp_def)
  have rs: "row_sums ?t = map g cats" by (simp add: row_sums_def comp_def)
  have ts: "table_sum ?t = sum_list (map g cats)" by (simp add: table_sum_def comp_def)
  have "expected_freq ?t = map (\<lambda>c. [real (g c)]) cats"
    unfolding expected_freq_def cs rs ts using pos by (simp add: comp_def)
  then show ?thesis by (simp add: comp_def map_concat)
qed

lemma expected_one_row:
  fixes row :: "nat list"
  assumes pos: "0 < sum_list row"
  shows "concat (expected_freq [row]) = map real (concat [row])"
proof -
  have cs: "col_sums [row] = row"
    unfolding col_sums_def by (simp add: ncols_def map_nth)
  have "expected_freq [row] = [map real row]"
    unfolding expected_freq_def cs using pos by (simp add: row_sums_def table_sum_def)
  then show ?thesis by simp
qed

lemma pearson_dof_zero:
  assumes n: "0 < table_sum (crosstab f ds)" and dof: "table_dof (crosstab f ds) = 0"
  shows "pearson_statistic (crosstab f ds) = 0"
proof -
  have ne: "index_values f ds \<noteq> []" by (rule index_values_nonempty [OF n])
  have "length (index_values f ds) = 1 \<or> length (outcome_values f ds) = 1"
    using dof by (simp add: table_dof_def nrows_crosstab ncols_crosstab [OF ne])
  then show ?thesis
  proof
    assume "length (index_values f ds) = 1"
    then obtain c where c: "index_values f ds = [c]"
      by (cases "index_values f ds") auto
    have t: "crosstab f ds = [map (cell f ds c) (outcome_values f ds)]"
      by (simp add: crosstab_def c)
    have "0 < sum_list (map (cell f ds c) (outcome_values f ds))"
      using n unfolding t by (simp add: table_sum_def)
    then show ?thesis
      unfolding t by (intro pearson_expected_eq_observed expected_one_row)
  next
    assume "length (outcome_values f ds) = 1"
    then obtain w where w: "outcome_values f ds = [w]"
      by (cases "outcome_values f ds") auto
    have t: "crosstab f ds = map (\<lambda>c. [cell f ds c w]) (index_values f ds)"
      by (simp add: crosstab_def w)
    have "0 < sum_list (map (\<lambda>c. cell f ds c w) (index_values f ds))"
      using n unfolding t by (simp add: table_sum_def comp_def)
    then show ?thesis
      unfolding t by (intro pearson_expected_eq_observed expected_one_col ne)
  qed
qed

section \<open>Properties of the factor analysis\<close>

lemma analyze_factor_impact_below:
  "table_sum (crosstab f (df a)) < MIN_DEALS_FOR_INSIGHT \<Longrightarrow>
   analyze_factor_impact sf a f = Inr None"
  by (simp add: analyze_factor_impact_def)

lemma analyze_factor_impact_result:
  assumes gate: "MIN_DEALS_FOR_INSIGHT \<le> table_sum (crosstab f (df a))"
  shows "\<exists>r. analyze_factor_impact sf a f = Inr (Some r)
     \<and> factor_name r = f
     \<and> chi_square r = contingency_statistic (crosstab f (df a))
     \<and> p_value r = (if table_dof (crosstab f (df a)) = 0 then 1
                    else sf (contingency_statistic (crosstab f (df a)))
                           (table_dof (crosstab f (df a))))
     \<and> degrees_of_freedom r = table_dof (crosstab f (df a))
     \<and> cramers_v r =
         (if int (min (nrows (crosstab f (df a))) (ncols (crosstab f (df a)))) - 1 > 0
          then sqrt (contingency_statistic (crosstab f (df a))
                     / (real (table_sum (crosstab f (df a)))
                        * real_of_int (int (min (nrows (crosstab f (df a)))
                                                (ncols (crosstab f (df a)))) - 1)))
          else 0)
     \<and> category_stats r = group_stats f (df a) (overall_win_rate a)"
proof -
  let ?t = "crosstab f (df a)"
  have n: "0 < table_sum ?t" using gate by (simp add: MIN_DEALS_FOR_INSIGHT_def)
  have "group_stats f (df a) (overall_win_rate a) \<noteq> []"
    using index_values_nonempty [OF n] length_group_stats [of f "df a" "overall_win_rate a"]
    by auto
  then have rates: "map win_rate (group_stats f (df a) (overall_win_rate a)) \<noteq> []"
    by simp
  obtain imax where imax: "idxmax (map win_rate (group_stats f (df a) (overall_win_rate a))) = Inr imax"
    using idxmax_nonempty [OF rates] by blast
  obtain imin where imin: "idxmin (map win_rate (group_stats f (df a) (overall_win_rate a))) = Inr imin"
    using idxmin_nonempty [OF rates] by blast
  show ?thesis
    using gate unfolding analyze_factor_impact_def Let_def chi2_contingency_crosstab [OF n]
    by (simp add: imax imin)
qed

lemma df_init: "df (init ds) = ds"
  by (simp add: init_def)

lemmas example_defs = segment_def segment_deal_def two_region_example_def one_region_example_def
  rep_example_def opportunity_example_def tier_boundary_example_def
  opportunity_boundary_example_def

lemma index_values_eqI:
  assumes "sorted xs" "distinct xs" "set xs = {c. \<exists>d \<in> set ds. column f d = Some c}"
  shows "index_values f ds = xs"
  by (rule sorted_distinct_set_unique)
     (use assms in \<open>simp_all add: sorted_index_values distinct_index_values set_index_values\<close>)

lemma outcome_values_eqI:
  assumes "sorted xs" "distinct xs" "set xs = is_won ` {d \<in> set ds. column f d \<noteq> None}"
  shows "outcome_values f ds = xs"
  by (rule sorted_distinct_set_unique)
     (use assms in \<open>simp_all add: sorted_outcome_values distinct_outcome_values set_outcome_values\<close>)

lemma outcome_values_both:
  assumes "\<exists>d \<in> set ds. column f d \<noteq> None \<and> \<not> is_won d"
    and "\<exists>d \<in> set ds. column f d \<noteq> None \<and> is_won d"
  shows "outcome_values f ds = [False, True]"
proof (rule outcome_values_eqI)
  show "set [False, True] = is_won ` {d \<in> set ds. column f d \<noteq> None}"
    using assms by (auto simp: image_iff) 
qed simp_all

lemma two_region_index: "index_values Region two_region_example = [''A'', ''B'']"
  by (rule index_values_eqI) (auto simp: example_defs)

lemma two_region_outcomes: "outcome_values Region two_region_example = [False, True]"
  by (rule outcome_values_both) (simp_all add: example_defs)

lemma two_region_crosstab: "crosstab Region two_region_example = [[20, 30], [30, 20]]"
  unfolding crosstab_def two_region_index two_region_outcomes
  by (simp add: cell_def example_defs)

lemma two_region_tail_rows:
  "length (filter (\<lambda>d. column Region d \<noteq> None) (tl two_region_example)) = 99"
  by (simp add: example_defs eval_nat_numeral)

lemma two_region_statistics:
  "contingency_statistic [[20, 30], [30, 20]] = 81 / 25"
  "pearson_statistic [[20, 30], [30, 20]] = 4"
  by code_simp+

lemma one_region_rows:
  "length (filter (\<lambda>d. column Region d \<noteq> None) one_region_example) = 100"
  by (simp add: example_defs)

lemma one_region_index: "index_values Region one_region_example = [''A'']"
  by (rule index_values_eqI) (auto simp: example_defs)

text \<open>
  Claim C4. \<open>analyze_factor_impact\<close> returns \<open>None\<close> exactly when the total of the
  factor's contingency table is below 100 and returns a result (it never raises)
  otherwise. The total is the number of deals that have a value of the factor: the gate
  looks at the whole table, not at the size of a category.
\<close>

theorem analyze_factor_impact_gate:
  "(analyze_factor_impact sf a f = Inr None
      \<longleftrightarrow> table_sum (crosstab f (df a)) < MIN_DEALS_FOR_INSIGHT)
   \<and> ((\<exists>r. analyze_factor_impact sf a f = Inr (Some r))
      \<longleftrightarrow> MIN_DEALS_FOR_INSIGHT \<le> table_sum (crosstab f (df a)))
   \<and> table_sum (crosstab f (df a)) = length (filter (\<lambda>d. column f d \<noteq> None) (df a))"
proof (cases "table_sum (crosstab f (df a)) < MIN_DEALS_FOR_INSIGHT")
  case True
  then show ?thesis
    using analyze_factor_impact_below [OF True, of sf] by (simp add: table_sum_crosstab)
next
  case False
  then have "MIN_DEALS_FOR_INSIGHT \<le> table_sum (crosstab f (df a))" by simp
  from analyze_factor_impact_result [OF this, of sf]
  obtain r where "analyze_factor_impact sf a f = Inr (Some r)" by blast
  with False show ?thesis by (simp add: table_sum_crosstab)
qed

theorem analyze_factor_impact_gate_witness:
  "analyze_factor_impact example_sf (init (tl two_region_example)) Region = Inr None
   \<and> table_sum (crosstab Region (df (init (tl two_region_example)))) = 99
   \<and> (\<exists>r. analyze_factor_impact example_sf (init two_region_example) Region = Inr (Some r))
   \<and> table_sum (crosstab Region (df (init two_region_example))) = 100
   \<and> map sum_list (crosstab Region (df (init two_region_example))) = [50, 50]"
proof -
  have small: "table_sum (crosstab Region (df (init (tl two_region_example)))) = 99"
    unfolding df_init table_sum_crosstab by (rule two_region_tail_rows)
  have large: "table_sum (crosstab Region (df (init two_region_example))) = 100"
    by (simp add: init_def two_region_crosstab table_sum_def)
  have rows: "map sum_list (crosstab Region (df (init two_region_example))) = [50, 50]"
    by (simp add: init_def two_region_crosstab)
  from analyze_factor_impact_gate [of example_sf "init (tl two_region_example)" Region]
       analyze_factor_impact_gate [of example_sf "init two_region_example" Region]
       small large rows
  show ?thesis by (simp add: MIN_DEALS_FOR_INSIGHT_def)
qed

text \<open>
  Claim C3. For a factor that passes the gate, Cramer's V of the result is
  \<open>sqrt (chi2 / (n * (min rows cols - 1)))\<close> with \<open>n\<close> the total of the contingency
  table and \<open>chi2\<close> the statistic of the result; it is 0 whenever \<open>min rows cols - 1\<close>
  is not positive, in particular for a factor with exactly one category.
\<close>

theorem cramers_v_formula:
  assumes "MIN_DEALS_FOR_INSIGHT \<le> table_sum (crosstab f (df a))"
  shows "\<exists>r. analyze_factor_impact sf a f = Inr (Some r)
     \<and> cramers_v r =
         (if 0 < int (min (nrows (crosstab f (df a))) (ncols (crosstab f (df a)))) - 1
          then sqrt (chi_square r
                     / (real (table_sum (crosstab f (df a)))
                        * real_of_int (int (min (nrows (crosstab f (df a)))
                                                (ncols (crosstab f (df a)))) - 1)))
          else 0)
     \<and> (int (min (nrows (crosstab f (df a))) (ncols (crosstab f (df a)))) - 1 \<le> 0
          \<longrightarrow> cramers_v r = 0)
     \<and> (length (index_values f (df a)) = 1 \<longrightarrow> cramers_v r = 0)"
proof -
  from analyze_factor_impact_result [OF assms, of sf] obtain r
    where r: "analyze_factor_impact sf a f = Inr (Some r)"
      "chi_square r = contingency_statistic (crosstab f (df a))"
      "cramers_v r =
         (if int (min (nrows (crosstab f (df a))) (ncols (crosstab f (df a)))) - 1 > 0
          then sqrt (contingency_statistic (crosstab f (df a))
                     / (real (table_sum (crosstab f (df a)))
                        * real_of_int (int (min (nrows (crosstab f (df a)))
                                                (ncols (crosstab f (df a)))) - 1)))
          else 0)"
    by blast
  have "length (index_values f (df a)) = 1 \<Longrightarrow>
        int (min (nrows (crosstab f (df a))) (ncols (crosstab f (df a)))) - 1 \<le> 0"
    by (simp add: nrows_crosstab)
  with r show ?thesis by auto
qed

theorem cramers_v_formula_witness:
  "MIN_DEALS_FOR_INSIGHT \<le> table_sum (crosstab Region (df (init two_region_example)))
   \<and> (\<exists>r. analyze_factor_impact example_sf (init two_region_example) Region = Inr (Some r)
        \<and> cramers_v r = 9 / 50)
   \<and> MIN_DEALS_FOR_INSIGHT \<le> table_sum (crosstab Region (df (init one_region_example)))
   \<and> length (index_values Region (df (init one_region_example))) = 1
   \<and> (\<exists>r. analyze_factor_impact example_sf (init one_region_example) Region = Inr (Some r)
        \<and> cramers_v r = 0)"
proof -
  have gate2: "MIN_DEALS_FOR_INSIGHT \<le> table_sum (crosstab Region (df (init two_region_example)))"
    by (simp add: init_def two_region_crosstab table_sum_def MIN_DEALS_FOR_INSIGHT_def)
  have "table_sum (crosstab Region (df (init one_region_example))) = 100"
    unfolding df_init table_sum_crosstab by (rule one_region_rows)
  then have gate1: "MIN_DEALS_FOR_INSIGHT \<le> table_sum (crosstab Region (df (init one_region_example)))"
    by (simp add: MIN_DEALS_FOR_INSIGHT_def)
  have one: "length (index_values Region (df (init one_region_example))) = 1"
    by (simp add: df_init one_region_index)
  have root: "sqrt (81 / 2500) = 9 / 50"
    by (rule real_sqrt_unique) (simp_all add: power2_eq_square)
  from cramers_v_formula [OF gate2, of example_sf] obtain r
    where r: "analyze_factor_impact example_sf (init two_region_example) Region = Inr (Some r)"
      and chi: "chi_square r = contingency_statistic (crosstab Region (df (init two_region_example)))"
      and v: "cramers_v r =
         (if 0 < int (min (nrows (crosstab Region (df (init two_region_example))))
                          (ncols (crosstab Region (df (init two_region_example))))) - 1
          then sqrt (chi_square r
                     / (real (table_sum (crosstab Region (df (init two_region_example))))
                        * real_of_int (int (min (nrows (crosstab Region (df (init two_region_example))))
                                                (ncols (crosstab Region (df (init two_region_example))))) - 1)))
          else 0)"
    using analyze_factor_impact_result [OF gate2, of example_sf] by auto
  have "cramers_v r = 9 / 50"
    unfolding v chi
    by (simp add: df_init two_region_crosstab two_region_statistics nrows_def ncols_def
        table_sum_def root)
  with r have two: "\<exists>r. analyze_factor_impact example_sf (init two_region_example) Region
                       = Inr (Some r) \<and> cramers_v r = 9 / 50"
    by blast
  from cramers_v_formula [OF gate1, of example_sf] one
  have "\<exists>r. analyze_factor_impact example_sf (init one_region_example) Region = Inr (Some r)
          \<and> cramers_v r = 0"
    by blast
  with gate2 two gate1 one show ?thesis by blast
qed

text \<open>
  Claim C2, as stated, fails on a factor with two categories when both outcomes occur:
  with 30 won and 20 lost deals in one region and 20 won and 30 lost in the other, the
  standard formula gives 4, and the result carries the statistic 81/25, because the
  library applies Yates' correction when there is one degree of freedom.
\<close>

theorem chi_square_standard_formula_counterexample:
  "map_sum id (map_option chi_square)
     (analyze_factor_impact example_sf (init two_region_example) Region) = Inr (Some (81 / 25))
   \<and> pearson_statistic (crosstab Region (df (init two_region_example))) = 4
   \<and> MIN_DEALS_FOR_INSIGHT \<le> table_sum (crosstab Region (df (init two_region_example)))"
proof -
  have gate: "MIN_DEALS_FOR_INSIGHT \<le> table_sum (crosstab Region (df (init two_region_example)))"
    by (simp add: init_def two_region_crosstab table_sum_def MIN_DEALS_FOR_INSIGHT_def)
  from analyze_factor_impact_result [OF gate, of example_sf] obtain r
    where r: "analyze_factor_impact example_sf (init two_region_example) Region = Inr (Some r)"
      and chi: "chi_square r = contingency_statistic (crosstab Region (df (init two_region_example)))"
    by blast
  from chi have "chi_square r = 81 / 25"
    by (simp add: init_def two_region_crosstab two_region_statistics)
  moreover have "pearson_statistic (crosstab Region (df (init two_region_example))) = 4"
    by (simp add: init_def two_region_crosstab two_region_statistics)
  ultimately show ?thesis using r gate by simp
qed

text \<open>
  Claim C2, amended. For a factor that passes the gate, the degrees of freedom of the
  result are (rows - 1)(columns - 1); the chi-square statistic is the standard sum of
  (observed - expected) squared over expected whenever the degrees of freedom differ
  from 1, and the same sum over the Yates-corrected observed counts when they are 1;
  the p-value is the survival function at the statistic and the degrees of freedom, and
  1 when there are no degrees of freedom.
\<close>

theorem chi_square_statistic_of_result:
  assumes "MIN_DEALS_FOR_INSIGHT \<le> table_sum (crosstab f (df a))"
  shows "\<exists>r. analyze_factor_impact sf a f = Inr (Some r)
     \<and> degrees_of_freedom r
         = (int (nrows (crosstab f (df a))) - 1) * (int (ncols (crosstab f (df a))) - 1)
     \<and> (degrees_of_freedom r \<noteq> 1 \<longrightarrow> chi_square r = pearson_statistic (crosstab f (df a)))
     \<and> (degrees_of_freedom r = 1 \<longrightarrow> chi_square r = yates_statistic (crosstab f (df a)))
     \<and> p_value r = (if degrees_of_freedom r = 0 then 1
                    else sf (chi_square r) (degrees_of_freedom r))"
proof -
  let ?t = "crosstab f (df a)"
  have n: "0 < table_sum ?t" using assms by (simp add: MIN_DEALS_FOR_INSIGHT_def)
  from analyze_factor_impact_result [OF assms, of sf] obtain r
    where r: "analyze_factor_impact sf a f = Inr (Some r)"
      and chi: "chi_square r = contingency_statistic ?t"
      and p: "p_value r = (if table_dof ?t = 0 then 1
                    else sf (contingency_statistic ?t) (table_dof ?t))"
      and dof: "degrees_of_freedom r = table_dof ?t"
    by blast
  have "chi_square r = pearson_statistic ?t" if "degrees_of_freedom r \<noteq> 1"
  proof (cases "table_dof ?t = 0")
    case True
    then show ?thesis
      unfolding chi by (simp add: contingency_statistic_def pearson_dof_zero [OF n])
  next
    case False
    with that dof show ?thesis
      unfolding chi by (simp add: contingency_statistic_def)
  qed
  moreover have "chi_square r = yates_statistic ?t" if "degrees_of_freedom r = 1"
    using that dof unfolding chi by (simp add: contingency_statistic_def)
  ultimately show ?thesis
    using r p dof chi by (auto simp: table_dof_def)
qed

theorem chi_square_statistic_of_result_witness:
  "MIN_DEALS_FOR_INSIGHT \<le> table_sum (crosstab Region (df (init two_region_example)))
   \<and> (\<exists>r. analyze_factor_impact example_sf (init two_region_example) Region = Inr (Some r)
        \<and> degrees_of_freedom r = 1
        \<and> chi_square r = yates_statistic (crosstab Region (df (init two_region_example))))"
proof -
  have gate: "MIN_DEALS_FOR_INSIGHT \<le> table_sum (crosstab Region (df (init two_region_example)))"
    by (simp add: init_def two_region_crosstab table_sum_def MIN_DEALS_FOR_INSIGHT_def)
  have "(int (nrows (crosstab Region (df (init two_region_example)))) - 1)
        * (int (ncols (crosstab Region (df (init two_region_example)))) - 1) = 1"
    by (simp add: init_def two_region_crosstab nrows_def ncols_def)
  with chi_square_statistic_of_result [OF gate, of example_sf] gate
  show ?thesis by auto
qed

section \<open>Properties of the rep tiers\<close>

text \<open>
  Claim C1. The claim asks that \<open>get_rep_performance_tiers\<close> completes without raising
  on a dataset whose rep table has fewer than 100 observations. The function does not:
  below the gate \<open>analyze_factor_impact\<close> returns \<open>None\<close>, and the function subscripts
  it, which raises \<open>TypeError\<close>.
\<close>

theorem rep_tiers_raise_below_gate:
  assumes "table_sum (crosstab Sales_rep_id (df a)) < MIN_DEALS_FOR_INSIGHT"
  shows "get_rep_performance_tiers sf a = Inl TypeError"
  using analyze_factor_impact_below [OF assms, of sf]
  by (simp add: get_rep_performance_tiers_def)

theorem rep_tiers_raise_below_gate_witness:
  "table_sum (crosstab Sales_rep_id (df (init [example_deal ''rep_1'' 0 True]))) = 1
   \<and> get_rep_performance_tiers example_sf (init [example_deal ''rep_1'' 0 True]) = Inl TypeError"
proof -
  have one: "table_sum (crosstab Sales_rep_id (df (init [example_deal ''rep_1'' 0 True]))) = 1"
    unfolding df_init table_sum_crosstab by (simp add: example_deal_def)
  then have "table_sum (crosstab Sales_rep_id (df (init [example_deal ''rep_1'' 0 True])))
             < MIN_DEALS_FOR_INSIGHT"
    by (simp add: MIN_DEALS_FOR_INSIGHT_def)
  from rep_tiers_raise_below_gate [OF this, of example_sf] one show ?thesis by simp
qed

section \<open>Properties of the analysis of all factors\<close>

lemma analyze_factor_impact_results_update [simp]:
  "analyze_factor_impact sf (a\<lparr>results := x\<rparr>) f = analyze_factor_impact sf a f"
  "analyze_factor_impact sf (a\<lparr>factor_ranking := y\<rparr>) f = analyze_factor_impact sf a f"
  by (simp_all add: analyze_factor_impact_def Let_def split: sum.split prod.split)

lemma fresh_results_update [simp]:
  "fresh_results sf (a\<lparr>results := x\<rparr>) fs = fresh_results sf a fs"
  "fresh_results sf (a\<lparr>factor_ranking := y\<rparr>) fs = fresh_results sf a fs"
  by (simp_all add: fresh_results_def)

lemma analyze_factor_impact_cases:
  obtains (below) "table_sum (crosstab f (df a)) < MIN_DEALS_FOR_INSIGHT"
      "analyze_factor_impact sf a f = Inr None"
  | (result) r where "MIN_DEALS_FOR_INSIGHT \<le> table_sum (crosstab f (df a))"
      "analyze_factor_impact sf a f = Inr (Some r)"
      "category_stats r = group_stats f (df a) (overall_win_rate a)"
proof (cases "table_sum (crosstab f (df a)) < MIN_DEALS_FOR_INSIGHT")
  case True
  with analyze_factor_impact_below [OF True, of sf] below show ?thesis by blast
next
  case False
  then have gate: "MIN_DEALS_FOR_INSIGHT \<le> table_sum (crosstab f (df a))" by simp
  from analyze_factor_impact_result [OF gate, of sf] result gate show ?thesis by blast
qed

lemma fresh_results_Cons:
  "fresh_results sf a (f # fs) =
     (case analyze_factor_impact sf a f of Inr (Some r) \<Rightarrow> [(f, r)] | _ \<Rightarrow> [])
     @ fresh_results sf a fs"
  by (simp add: fresh_results_def)

lemma fresh_results_Nil [simp]: "fresh_results sf a [] = []"
  by (simp add: fresh_results_def)

lemma in_fresh_results:
  "(f, r) \<in> set (fresh_results sf a fs)
     \<longleftrightarrow> f \<in> set fs \<and> analyze_factor_impact sf a f = Inr (Some r)"
  by (induction fs) (auto simp: fresh_results_Cons split: sum.splits option.splits)

lemma keys_fresh_results:
  "map fst (fresh_results sf a fs)
     = filter (\<lambda>f. MIN_DEALS_FOR_INSIGHT \<le> table_sum (crosstab f (df a))) fs"
proof (induction fs)
  case Nil
  show ?case by simp
next
  case (Cons f fs)
  show ?case
    by (cases rule: analyze_factor_impact_cases [where f = f and a = a and sf = sf])
       (simp_all add: fresh_results_Cons Cons.IH)
qed

lemma update_fresh_key:
  "k \<notin> fst ` set xs \<Longrightarrow> AList.update k v xs = xs @ [(k, v)]"
  by (induction xs) auto

lemma analyze_loop_fresh:
  assumes "distinct fs" and "set fs \<inter> fst ` set (results a) = {}"
  shows "analyze_loop sf a fs = Inr (a\<lparr>results := results a @ fresh_results sf a fs\<rparr>)"
  using assms
proof (induction fs arbitrary: a)
  case Nil
  show ?case by simp
next
  case (Cons f fs)
  show ?case
  proof (cases rule: analyze_factor_impact_cases [where f = f and a = a and sf = sf])
    case below
    with Cons show ?thesis by (simp add: fresh_results_Cons)
  next
    case (result r)
    let ?a = "a\<lparr>results := AList.update f r (results a)\<rparr>"
    have upd: "AList.update f r (results a) = results a @ [(f, r)]"
      using Cons.prems by (intro update_fresh_key) auto
    have "set fs \<inter> fst ` set (results ?a) = {}"
      using Cons.prems by (auto simp: upd)
    with Cons.IH [of ?a] Cons.prems
    have "analyze_loop sf ?a fs = Inr (?a\<lparr>results := results ?a @ fresh_results sf ?a fs\<rparr>)"
      by simp
    with result show ?thesis by (simp add: fresh_results_Cons upd)
  qed
qed

lemma analyze_loop_rerun:
  assumes "distinct (map fst (results a))"
    and "\<And>f r. f \<in> set fs \<Longrightarrow> analyze_factor_impact sf a f = Inr (Some r)
           \<Longrightarrow> (f, r) \<in> set (results a)"
  shows "analyze_loop sf a fs = Inr a"
  using assms(2)
proof (induction fs)
  case Nil
  show ?case by simp
next
  case (Cons f fs)
  show ?case
  proof (cases rule: analyze_factor_impact_cases [where f = f and a = a and sf = sf])
    case below
    with Cons show ?thesis by simp
  next
    case (result r)
    then have "(f, r) \<in> set (results a)" using Cons.prems by simp
    then have "map_of (results a) f = Some r"
      using assms(1) by (simp add: map_of_is_SomeI)
    then have "AList.update f r (results a) = results a"
      by (rule AList.update_triv)
    with result Cons show ?thesis by simp
  qed
qed

lemma distinct_factors: "distinct factors"
  by (simp add: factors_def)

lemma set_factors: "f \<in> set factors"
  by (cases f) (simp_all add: factors_def)

lemma analyze_all_factors_fresh:
  assumes "results a = []"
  shows "analyze_all_factors sf a =
     Inr (a\<lparr>results := fresh_results sf a factors,
            factor_ranking :=
              Some (map fst (sorted_reverse (\<lambda>x. cramers_v (snd x))
                               (fresh_results sf a factors)))\<rparr>)"
  using analyze_loop_fresh [OF distinct_factors, of a sf] assms
  by (simp add: analyze_all_factors_def)

lemma analyze_all_factors_rerun:
  assumes "results a = fresh_results sf a factors"
    and "factor_ranking a
           = Some (map fst (sorted_reverse (\<lambda>x. cramers_v (snd x)) (results a)))"
  shows "analyze_all_factors sf a = Inr a"
proof -
  have "distinct (map fst (results a))"
    unfolding assms(1) keys_fresh_results using distinct_factors by simp
  moreover have "(f, r) \<in> set (results a)"
    if "analyze_factor_impact sf a f = Inr (Some r)" for f r
    unfolding assms(1) using that by (simp add: in_fresh_results set_factors)
  ultimately have "analyze_loop sf a factors = Inr a"
    by (intro analyze_loop_rerun) auto
  then show ?thesis
    using assms(2) by (simp add: analyze_all_factors_def)
qed

lemma sorted_reverse_sorted:
  fixes key :: "'a \<Rightarrow> 'k::{linordered_ab_group_add}"
  shows "sorted_wrt (\<lambda>x y. key x \<ge> key y) (sorted_reverse key xs)"
proof -
  have "sorted (map (\<lambda>x. - key x) (sorted_reverse key xs))"
    unfolding sorted_reverse_def by (rule sorted_sort_key)
  then show ?thesis by (simp add: sorted_wrt_map)
qed

lemma set_sorted_reverse [simp]: "set (sorted_reverse key xs) = set xs"
  by (simp add: sorted_reverse_def)

lemma length_sorted_reverse [simp]: "length (sorted_reverse key xs) = length xs"
  by (simp add: sorted_reverse_def)

lemma distinct_map_insort_key:
  "distinct (map g (insort_key k x xs)) \<longleftrightarrow> g x \<notin> g ` set xs \<and> distinct (map g xs)"
  by (induction xs) (auto simp: set_insort_key)

lemma distinct_map_sort_key:
  "distinct (map g (sort_key k xs)) \<longleftrightarrow> distinct (map g xs)"
  by (induction xs) (simp_all add: distinct_map_insort_key)

lemma distinct_map_sorted_reverse:
  "distinct (map g (sorted_reverse key xs)) \<longleftrightarrow> distinct (map g xs)"
  by (simp add: sorted_reverse_def distinct_map_sort_key)


lemma results_init: "results (init ds) = []"
  by (simp add: init_def)

text \<open>
  Claim C9. On every dataset \<open>analyze_all_factors\<close> returns, and the ranking it stores
  lists the factors that have a result, each once, in an order in which Cramer's V never
  increases. Running it again on the analyzer it returned changes nothing: the same
  results and the same ranking, ties in the same order.
\<close>

theorem factor_ranking_sorted_and_stable:
  "\<exists>a' ranked.
      analyze_all_factors sf (init ds) = Inr a'
    \<and> factor_ranking a' = Some (map fst ranked)
    \<and> set ranked = set (results a') \<and> distinct (map fst ranked)
    \<and> sorted_wrt (\<lambda>x y. cramers_v (snd x) \<ge> cramers_v (snd y)) ranked
    \<and> (\<forall>f r. (f, r) \<in> set (results a')
          \<longleftrightarrow> analyze_factor_impact sf (init ds) f = Inr (Some r))
    \<and> analyze_all_factors sf a' = Inr a'"
proof -
  let ?a = "init ds"
  let ?R = "fresh_results sf ?a factors"
  let ?ranked = "sorted_reverse (\<lambda>x. cramers_v (snd x)) ?R"
  let ?a' = "?a\<lparr>results := ?R, factor_ranking := Some (map fst ?ranked)\<rparr>"
  have run: "analyze_all_factors sf ?a = Inr ?a'"
    by (rule analyze_all_factors_fresh [OF results_init])
  have keys: "distinct (map fst ?R)"
    unfolding keys_fresh_results using distinct_factors by simp
  have rerun: "analyze_all_factors sf ?a' = Inr ?a'"
    by (rule analyze_all_factors_rerun) simp_all
  have mem: "(f, r) \<in> set (results ?a') \<longleftrightarrow> analyze_factor_impact sf ?a f = Inr (Some r)"
    for f r
    by (simp add: in_fresh_results set_factors)
  have "factor_ranking ?a' = Some (map fst ?ranked)" by simp
  moreover have "set ?ranked = set (results ?a')" by simp
  moreover have "distinct (map fst ?ranked)"
    using keys by (simp add: distinct_map_sorted_reverse)
  moreover have "sorted_wrt (\<lambda>x y. cramers_v (snd x) \<ge> cramers_v (snd y)) ?ranked"
    by (rule sorted_reverse_sorted)
  ultimately show ?thesis
    using run rerun mem by blast
qed

theorem factor_ranking_sorted_and_stable_witness:
  "\<exists>a' ranked.
      analyze_all_factors example_sf (init two_region_example) = Inr a'
    \<and> factor_ranking a' = Some (map fst ranked)
    \<and> set ranked = set (results a')
    \<and> Region \<in> set (map fst ranked)
    \<and> sorted_wrt (\<lambda>x y. cramers_v (snd x) \<ge> cramers_v (snd y)) ranked
    \<and> analyze_all_factors example_sf a' = Inr a'"
proof -
  have "MIN_DEALS_FOR_INSIGHT \<le> table_sum (crosstab Region (df (init two_region_example)))"
    by (simp add: init_def two_region_crosstab table_sum_def MIN_DEALS_FOR_INSIGHT_def)
  from analyze_factor_impact_result [OF this, of example_sf] obtain r
    where r: "analyze_factor_impact example_sf (init two_region_example) Region = Inr (Some r)"
    by blast
  from factor_ranking_sorted_and_stable [of example_sf two_region_example] obtain a' ranked
    where a': "analyze_all_factors example_sf (init two_region_example) = Inr a'"
      "factor_ranking a' = Some (map fst ranked)"
      "set ranked = set (results a')"
      "sorted_wrt (\<lambda>x y. cramers_v (snd x) \<ge> cramers_v (snd y)) ranked"
      "\<forall>f r. (f, r) \<in> set (results a')
          \<longleftrightarrow> analyze_factor_impact example_sf (init two_region_example) f = Inr (Some r)"
      "analyze_all_factors example_sf a' = Inr a'"
    by blast
  from a'(3,5) r have "(Region, r) \<in> set ranked" by simp
  then have reg: "Region \<in> set (map fst ranked)" by force
  show ?thesis
    by (rule exI [of _ a'], rule exI [of _ ranked])
       (intro conjI a'(1) a'(2) a'(3) a'(4) a'(6) reg)
qed


section \<open>Properties of the rep momentum index\<close>

lemma Timedelta_days_eq:
  "Timedelta_days n = (if \<bar>n\<bar> \<le> 106751 then Inr (n * 86400000000000) else Inl OutOfBounds)"
  by (simp add: Timedelta_days_def Let_def) arith

lemma window_cutoff_eq:
  "window_cutoff rd days =
     (if window_in_range rd days then Inr (max_date rd - days * 86400000000000)
      else Inl OutOfBounds)"
  by (simp add: window_cutoff_def Timedelta_days_eq timestamp_sub_def window_in_range_def Let_def)

lemma momentum_index_in_range:
  assumes "rep_data ds rep_id \<noteq> []"
    and "window_in_range (rep_data ds rep_id) r" and "window_in_range (rep_data ds rep_id) h"
  shows "calculate_rep_momentum_index ds rep_id r h =
     Inr (if length (window_deals (rep_data ds rep_id) r) < 3
             \<or> length (window_deals (rep_data ds rep_id) h) < 5
             \<or> mean_won (window_deals (rep_data ds rep_id) h) = 0
          then None
          else Some (round_double (mean_won (window_deals (rep_data ds rep_id) r)
                                   / mean_won (window_deals (rep_data ds rep_id) h))))"
  using assms
  by (simp add: calculate_rep_momentum_index_def window_cutoff_eq window_deals_def Let_def)

lemma momentum_index_out_of_range:
  assumes "rep_data ds rep_id \<noteq> []"
    and "\<not> (window_in_range (rep_data ds rep_id) r \<and> window_in_range (rep_data ds rep_id) h)"
  shows "calculate_rep_momentum_index ds rep_id r h = Inl OutOfBounds"
  using assms
  by (auto simp: calculate_rep_momentum_index_def window_cutoff_eq Let_def)

lemma momentum_index_no_deals:
  assumes "rep_data ds rep_id = []"
  shows "calculate_rep_momentum_index ds rep_id r h = Inr None"
  using assms by (simp add: calculate_rep_momentum_index_def)

lemma window_deals_nested:
  assumes "recent_days \<le> historical_days"
  shows "window_deals rd recent_days
       = filter (\<lambda>d. closed_date d \<ge> max_date rd - recent_days * 86400000000000)
           (window_deals rd historical_days)"
  using assms
  by (auto simp: window_deals_def deals_since_def intro!: filter_cong)

lemma rep_data_idem: "rep_data (rep_data ds r) r = rep_data ds r"
  by (simp add: rep_data_def)

lemma length_filter_filter_le: "length (filter P (filter Q xs)) \<le> length (filter P xs)"
  by (induction xs) auto

lemma in_window_deals:
  "d \<in> set (window_deals (rep_data ds rep_id) n) \<longleftrightarrow>
        d \<in> set ds \<and> sales_rep_id d = Some rep_id \<and>
        closed_date d \<ge> Max {closed_date e | e. e \<in> set ds \<and> sales_rep_id e = Some rep_id}
                          - n * 86400000000000"
proof -
  have "closed_date ` {x \<in> set ds. sales_rep_id x = Some rep_id}
      = {closed_date e | e. e \<in> set ds \<and> sales_rep_id e = Some rep_id}"
    by auto
  then show ?thesis
    by (auto simp: window_deals_def deals_since_def rep_data_def max_date_def)
qed

lemma momentum_example_values:
  "rep_data momentum_example ''rep_1'' \<noteq> []"
  "window_in_range (rep_data momentum_example ''rep_1'') 30"
  "window_in_range (rep_data momentum_example ''rep_1'') 90"
  "\<not> window_in_range (rep_data momentum_example ''rep_1'') 106752"
  "length (window_deals (rep_data momentum_example ''rep_1'') 30) = 5"
  "length (window_deals (rep_data momentum_example ''rep_1'') 90) = 7"
  "mean_won (window_deals (rep_data momentum_example ''rep_1'') 30)
     = 3602879701896397 / 4503599627370496"
  "mean_won (window_deals (rep_data momentum_example ''rep_1'') 90)
     = 2573485501354569 / 4503599627370496"
  "calculate_rep_momentum_index momentum_example ''rep_1'' 30 90
     = Inr (Some (6305039478318695 / 4503599627370496))"
  "calculate_rep_momentum_index momentum_example ''rep_1'' 30 106752 = Inl OutOfBounds"
  by code_simp+

text \<open>
  Claim C6. For a rep without deals the momentum index is not computable (\<open>Inr None\<close>,
  the NaN). For a rep with deals, and windows of at most 106751 days whose cutoffs pandas
  can represent, it is not computable when fewer than three of the rep's deals lie in the
  recent window, or fewer than five in the historical window, or the historical win rate
  is zero; otherwise it is the recent win rate divided by the historical one, a division
  of doubles. For other windows the function raises. A deal lies in a window exactly if
  it is a deal of that rep that closed no earlier than the given number of days before
  the latest closing date among that rep's own deals; the deals of other reps do not
  influence the result.
\<close>

theorem momentum_index_cases:
  "(rep_data ds rep_id = [] \<longrightarrow> calculate_rep_momentum_index ds rep_id r h = Inr None)
   \<and> (rep_data ds rep_id \<noteq> [] \<and> window_in_range (rep_data ds rep_id) r
        \<and> window_in_range (rep_data ds rep_id) h \<longrightarrow>
        calculate_rep_momentum_index ds rep_id r h =
          Inr (if length (window_deals (rep_data ds rep_id) r) < 3
                  \<or> length (window_deals (rep_data ds rep_id) h) < 5
                  \<or> mean_won (window_deals (rep_data ds rep_id) h) = 0
               then None
               else Some (round_double (mean_won (window_deals (rep_data ds rep_id) r)
                                        / mean_won (window_deals (rep_data ds rep_id) h)))))
   \<and> (rep_data ds rep_id \<noteq> []
        \<and> \<not> (window_in_range (rep_data ds rep_id) r \<and> window_in_range (rep_data ds rep_id) h)
        \<longrightarrow> calculate_rep_momentum_index ds rep_id r h = Inl OutOfBounds)
   \<and> (d \<in> set (window_deals (rep_data ds rep_id) n) \<longleftrightarrow>
        d \<in> set ds \<and> sales_rep_id d = Some rep_id \<and>
        closed_date d \<ge> Max {closed_date e | e. e \<in> set ds \<and> sales_rep_id e = Some rep_id}
                          - n * 86400000000000)
   \<and> calculate_rep_momentum_index (rep_data ds rep_id) rep_id r h
       = calculate_rep_momentum_index ds rep_id r h"
proof (intro conjI impI)
  show "calculate_rep_momentum_index ds rep_id r h = Inr None" if "rep_data ds rep_id = []"
    by (rule momentum_index_no_deals [OF that])
next
  assume "rep_data ds rep_id \<noteq> [] \<and> window_in_range (rep_data ds rep_id) r
        \<and> window_in_range (rep_data ds rep_id) h"
  then show "calculate_rep_momentum_index ds rep_id r h =
          Inr (if length (window_deals (rep_data ds rep_id) r) < 3
                  \<or> length (window_deals (rep_data ds rep_id) h) < 5
                  \<or> mean_won (window_deals (rep_data ds rep_id) h) = 0
               then None
               else Some (round_double (mean_won (window_deals (rep_data ds rep_id) r)
                                        / mean_won (window_deals (rep_data ds rep_id) h))))"
    by (intro momentum_index_in_range) simp_all
next
  assume "rep_data ds rep_id \<noteq> []
        \<and> \<not> (window_in_range (rep_data ds rep_id) r \<and> window_in_range (rep_data ds rep_id) h)"
  then show "calculate_rep_momentum_index ds rep_id r h = Inl OutOfBounds"
    by (intro momentum_index_out_of_range) simp_all
next
  show "d \<in> set (window_deals (rep_data ds rep_id) n) \<longleftrightarrow>
        d \<in> set ds \<and> sales_rep_id d = Some rep_id \<and>
        closed_date d \<ge> Max {closed_date e | e. e \<in> set ds \<and> sales_rep_id e = Some rep_id}
                          - n * 86400000000000"
    by (rule in_window_deals)
next
  show "calculate_rep_momentum_index (rep_data ds rep_id) rep_id r h
       = calculate_rep_momentum_index ds rep_id r h"
    by (simp add: calculate_rep_momentum_index_def rep_data_idem)
qed

theorem momentum_index_cases_witness:
  "rep_data momentum_example ''rep_1'' \<noteq> []
   \<and> window_in_range (rep_data momentum_example ''rep_1'') 30
   \<and> window_in_range (rep_data momentum_example ''rep_1'') 90
   \<and> length (window_deals (rep_data momentum_example ''rep_1'') 30) = 5
   \<and> length (window_deals (rep_data momentum_example ''rep_1'') 90) = 7
   \<and> calculate_rep_momentum_index momentum_example ''rep_1'' 30 90
       = Inr (Some (6305039478318695 / 4503599627370496))
   \<and> round_double (mean_won (window_deals (rep_data momentum_example ''rep_1'') 30)
                    / mean_won (window_deals (rep_data momentum_example ''rep_1'') 90))
       = 6305039478318695 / 4503599627370496
   \<and> \<not> window_in_range (rep_data momentum_example ''rep_1'') 106752
   \<and> calculate_rep_momentum_index momentum_example ''rep_1'' 30 106752 = Inl OutOfBounds"
proof -
  note v = momentum_example_values
  note c = momentum_index_cases [of momentum_example "''rep_1''" 30 90
      "example_deal ''rep_1'' 100 True" 0, THEN conjunct2, THEN conjunct1, rule_format]
  note e = momentum_index_cases [of momentum_example "''rep_1''" 30 106752
      "example_deal ''rep_1'' 100 True" 0, THEN conjunct2, THEN conjunct2, THEN conjunct1,
      rule_format]
  have "calculate_rep_momentum_index momentum_example ''rep_1'' 30 90 =
          Inr (if length (window_deals (rep_data momentum_example ''rep_1'') 30) < 3
                  \<or> length (window_deals (rep_data momentum_example ''rep_1'') 90) < 5
                  \<or> mean_won (window_deals (rep_data momentum_example ''rep_1'') 90) = 0
               then None
               else Some (round_double
                      (mean_won (window_deals (rep_data momentum_example ''rep_1'') 30)
                       / mean_won (window_deals (rep_data momentum_example ''rep_1'') 90))))"
    by (rule c) (simp add: v(1,2,3))
  then have ratio: "round_double
                      (mean_won (window_deals (rep_data momentum_example ''rep_1'') 30)
                       / mean_won (window_deals (rep_data momentum_example ''rep_1'') 90))
       = 6305039478318695 / 4503599627370496"
    unfolding v(9) by (simp add: v(5,6) split: if_splits)
  have err: "calculate_rep_momentum_index momentum_example ''rep_1'' 30 106752 = Inl OutOfBounds"
    by (rule e) (simp add: v(1,4))
  from v(1,2,3,4,5,6,9) ratio err show ?thesis by simp
qed

text \<open>
  Claim C10. For a rep with deals and representable windows, the function counts and
  averages exactly the deals of the two windows below. When the recent window is no
  longer than the historical one, the recent deals are the historical deals that pass
  the recent cutoff: every recent deal is a historical deal, the historical window holds
  at least as many deals and at least as many won deals as the recent one, and the latest
  deal of the rep lies in both (for a recent window of at least zero days), so the two
  windows are never disjoint.
\<close>

theorem historical_window_contains_recent:
  assumes "recent_days \<le> historical_days"
  shows "(rep_data ds rep_id \<noteq> [] \<and> window_in_range (rep_data ds rep_id) recent_days
          \<and> window_in_range (rep_data ds rep_id) historical_days \<longrightarrow>
          calculate_rep_momentum_index ds rep_id recent_days historical_days =
            Inr (if length (window_deals (rep_data ds rep_id) recent_days) < 3
                    \<or> length (window_deals (rep_data ds rep_id) historical_days) < 5
                    \<or> mean_won (window_deals (rep_data ds rep_id) historical_days) = 0
                 then None
                 else Some (round_double
                        (mean_won (window_deals (rep_data ds rep_id) recent_days)
                         / mean_won (window_deals (rep_data ds rep_id) historical_days)))))
       \<and> window_deals (rep_data ds rep_id) recent_days
           = filter (\<lambda>d. closed_date d
                          \<ge> max_date (rep_data ds rep_id) - recent_days * 86400000000000)
               (window_deals (rep_data ds rep_id) historical_days)
       \<and> set (window_deals (rep_data ds rep_id) recent_days)
           \<subseteq> set (window_deals (rep_data ds rep_id) historical_days)
       \<and> length (window_deals (rep_data ds rep_id) recent_days)
           \<le> length (window_deals (rep_data ds rep_id) historical_days)
       \<and> length (filter is_won (window_deals (rep_data ds rep_id) recent_days))
           \<le> length (filter is_won (window_deals (rep_data ds rep_id) historical_days))
       \<and> (0 \<le> recent_days \<and> rep_data ds rep_id \<noteq> [] \<longrightarrow>
            set (window_deals (rep_data ds rep_id) recent_days)
              \<inter> set (window_deals (rep_data ds rep_id) historical_days) \<noteq> {})"
proof -
  let ?rd = "rep_data ds rep_id"
  let ?P = "\<lambda>d. closed_date d \<ge> max_date ?rd - recent_days * 86400000000000"
  have fn: "calculate_rep_momentum_index ds rep_id recent_days historical_days =
            Inr (if length (window_deals ?rd recent_days) < 3
                    \<or> length (window_deals ?rd historical_days) < 5
                    \<or> mean_won (window_deals ?rd historical_days) = 0
                 then None
                 else Some (round_double
                        (mean_won (window_deals ?rd recent_days)
                         / mean_won (window_deals ?rd historical_days))))"
    if "?rd \<noteq> [] \<and> window_in_range ?rd recent_days \<and> window_in_range ?rd historical_days"
    using that by (intro momentum_index_in_range) simp_all
  have eq: "window_deals ?rd recent_days = filter ?P (window_deals ?rd historical_days)"
    by (rule window_deals_nested [OF assms])
  have sub: "set (window_deals ?rd recent_days) \<subseteq> set (window_deals ?rd historical_days)"
    by (subst eq) auto
  have len: "length (window_deals ?rd recent_days) \<le> length (window_deals ?rd historical_days)"
    by (subst eq) simp
  have won: "length (filter is_won (window_deals ?rd recent_days))
           \<le> length (filter is_won (window_deals ?rd historical_days))"
  proof -
    have "length (filter is_won (window_deals ?rd recent_days))
        = length (filter is_won (filter ?P (window_deals ?rd historical_days)))"
      by (simp only: eq [symmetric])
    also have "\<dots> \<le> length (filter is_won (window_deals ?rd historical_days))"
      by (rule length_filter_filter_le)
    finally show ?thesis .
  qed
  have meet: "set (window_deals ?rd recent_days) \<inter> set (window_deals ?rd historical_days) \<noteq> {}"
    if "0 \<le> recent_days \<and> ?rd \<noteq> []"
  proof -
    from that have nonneg: "0 \<le> recent_days" and ne: "?rd \<noteq> []" by simp_all
    have "max_date ?rd \<in> closed_date ` set ?rd"
      unfolding max_date_def using ne Max_in [of "set (map closed_date ?rd)"] by simp
    then obtain d where d: "d \<in> set ?rd" "closed_date d = max_date ?rd" by auto
    then have "d \<in> set (window_deals ?rd recent_days)"
      using nonneg by (simp add: window_deals_def deals_since_def)
    with sub show ?thesis by auto
  qed
  from fn eq sub len won meet show ?thesis by blast
qed

theorem historical_window_contains_recent_witness:
  "(30::int) \<le> 90
   \<and> rep_data momentum_example ''rep_1'' \<noteq> []
   \<and> window_in_range (rep_data momentum_example ''rep_1'') 30
   \<and> window_in_range (rep_data momentum_example ''rep_1'') 90
   \<and> calculate_rep_momentum_index momentum_example ''rep_1'' 30 90 =
        Inr (Some (round_double
               (mean_won (window_deals (rep_data momentum_example ''rep_1'') 30)
                / mean_won (window_deals (rep_data momentum_example ''rep_1'') 90))))
   \<and> length (window_deals (rep_data momentum_example ''rep_1'') 30) = 5
   \<and> length (window_deals (rep_data momentum_example ''rep_1'') 90) = 7
   \<and> set (window_deals (rep_data momentum_example ''rep_1'') 30)
       \<subseteq> set (window_deals (rep_data momentum_example ''rep_1'') 90)"
proof -
  note v = momentum_example_values
  have h: "(30::int) \<le> 90" by simp
  note t = historical_window_contains_recent [OF h, of momentum_example "''rep_1''"]
  from t v(1,2,3)
  have "calculate_rep_momentum_index momentum_example ''rep_1'' 30 90 =
            Inr (if length (window_deals (rep_data momentum_example ''rep_1'') 30) < 3
                    \<or> length (window_deals (rep_data momentum_example ''rep_1'') 90) < 5
                    \<or> mean_won (window_deals (rep_data momentum_example ''rep_1'') 90) = 0
                 then None
                 else Some (round_double
                        (mean_won (window_deals (rep_data momentum_example ''rep_1'') 30)
                         / mean_won (window_deals (rep_data momentum_example ''rep_1'') 90))))"
    by blast
  then have fn: "calculate_rep_momentum_index momentum_example ''rep_1'' 30 90 =
        Inr (Some (round_double
               (mean_won (window_deals (rep_data momentum_example ''rep_1'') 30)
                / mean_won (window_deals (rep_data momentum_example ''rep_1'') 90))))"
    by (simp add: v(5,6,8))
  from t have "set (window_deals (rep_data momentum_example ''rep_1'') 30)
       \<subseteq> set (window_deals (rep_data momentum_example ''rep_1'') 90)"
    by blast
  with h v(1,2,3,5,6) fn show ?thesis by simp
qed


section \<open>Properties of the partition into tiers\<close>


lemma category_row_simps [simp]:
  "category (category_row f ds ov c) = c"
  "deal_count (category_row f ds ov c) = length (category_deals f ds c)"
  "win_rate (category_row f ds ov c) = win_rate_percent (category_deals f ds c)"
  "win_rate_diff (category_row f ds ov c)
     = round_double (win_rate_percent (category_deals f ds c) - ov)"
  by (simp_all add: category_row_def category_deals_def win_rate_percent_def Let_def)

















section \<open>Properties of the improvement opportunities\<close>

lemma pow2_pos: "0 < pow2 e"
  by (simp add: pow2_def)

lemma round_ties_even_nonneg: "0 \<le> q \<Longrightarrow> 0 \<le> round_ties_even q"
  by (simp add: round_ties_even_def Let_def)

lemma round_double_nonneg: "0 \<le> x \<Longrightarrow> 0 \<le> round_double x"
  using pow2_pos [of "exponent x - 52"]
  by (simp add: round_double_def Let_def round_ties_even_nonneg)




lemma make_opportunity_simps [simp]:
  "opp_factor (make_opportunity f cs) = f"
  "opp_category (make_opportunity f cs) = category cs"
  "opp_deal_count (make_opportunity f cs) = deal_count cs"
  "potential_additional_wins (make_opportunity f cs)
     = \<lfloor>round_double (round_double (\<bar>win_rate_diff cs\<bar> / 100) * real (deal_count cs))\<rfloor>"
  "opp_priority (make_opportunity f cs) = High \<longleftrightarrow> win_rate_diff cs < - 10"
  by (simp_all add: make_opportunity_def Let_def py_int_def round_double_nonneg)


















end
